theory Spec2Isabelle
  imports Main "HOL-Library.AList" "HOL-Library.Word"
begin

section \<open>Relay core: environments and the credential index\<close>

text \<open>
  The second Go file of \<^verbatim>\<open>event-relay.go\<close> (package \<^verbatim>\<open>relay\<close>) holds
  \<^verbatim>\<open>RelayCore\<close>: three Go maps from credentials to \<^verbatim>\<open>relayenv.EnvContext\<close>
  values, a \<^verbatim>\<open>closed\<close> flag, a metrics manager and four stream providers.
  The read/write lock only serialises the operations; the model is the sequential
  effect of each operation on the core and on the objects it owns.
\<close>

subsection \<open>Credentials and configuration\<close>

text \<open>
  \<^verbatim>\<open>config.SDKCredential\<close> is an interface implemented by the string types
  \<^verbatim>\<open>config.SDKKey\<close>, \<^verbatim>\<open>config.MobileKey\<close> and \<^verbatim>\<open>config.EnvironmentID\<close>;
  \<open>OtherCredential\<close> stands for every other dynamic type (and the nil interface),
  which the type switch of \<^verbatim>\<open>GetEnvironment\<close> sends to its default branch.
\<close>

datatype SDKCredential =
    SDKKey string
  | MobileKey string
  | EnvironmentID string
  | OtherCredential

text \<open>The fields of \<^verbatim>\<open>config.EnvConfig\<close> that \<^verbatim>\<open>AddEnvironment\<close> reads.\<close>

record EnvConfig =
  cfgSDKKey :: string
  cfgMobileKey :: string
  cfgEnvID :: string
  cfgAllowedOrigin :: "string list"
  cfgInsecureSkipVerify :: bool

text \<open>The value of \<^verbatim>\<open>EnvContext.GetCredentials()\<close>.\<close>

record Credentials =
  credSDKKey :: string
  credMobileKey :: string
  credEnvironmentID :: string

text \<open>
  \<^verbatim>\<open>relayenv.JSClientContext\<close> as \<^verbatim>\<open>AddEnvironment\<close> fills it: the allowed
  origins, and the reverse proxy (\<open>None\<close> is the nil proxy of an environment without an
  environment ID; \<open>Some b\<close> is a proxy whose transport skips TLS verification iff \<open>b\<close>).
\<close>

record JSClientContext =
  Origins :: "string list"
  Proxy :: "bool option"

subsection \<open>Environment contexts\<close>

text \<open>
  Modelled from the spec: \<^verbatim>\<open>relayenv.EnvContext\<close> and \<^verbatim>\<open>relayenv.NewEnvContext\<close>
  are not among the source files. An EnvContext is "the runtime instance for one
  EnvConfig": it carries the name and the credentials of the configuration it was
  constructed from. \<open>ctxID\<close> is the identity of the object (Go compares the interface
  values by pointer); \<open>ctxInitError\<close> is what \<^verbatim>\<open>GetInitError()\<close> returns once the
  environment has reported, \<open>ctxCloseErr\<close> what its \<^verbatim>\<open>Close()\<close> returns. The calls of
  \<^verbatim>\<open>Close()\<close> themselves are recorded in the core's \<open>closeCalls\<close> below.
\<close>

record EnvContext =
  ctxID :: nat
  ctxName :: string
  ctxCredentials :: Credentials
  ctxJSClient :: JSClientContext
  ctxInitError :: "string option"
  ctxCloseErr :: "string option"

text \<open>
  What the world outside the source files answers during one \<^verbatim>\<open>AddEnvironment\<close>:
  the error of \<^verbatim>\<open>sdks.ConfigureDataStore\<close> and of \<^verbatim>\<open>relayenv.NewEnvContext\<close>
  (\<open>None\<close> is a nil error), and the two answers the constructed context will give later.
\<close>

record outcome =
  ConfigureDataStoreErr :: "string option"
  NewEnvContextErr :: "string option"
  willInitError :: "string option"
  willCloseErr :: "string option"

datatype error =
    errAlreadyClosed
  | errDefaultBaseURLInvalid
  | errInitializationTimeout
  | errNoEnvironments
  | errSomeEnvironmentFailed
  | errNewClientContextFailed string string
  | errNewMetricsManagerFailed string
  | errDataStore string
  | panicNilMap

subsection \<open>Go maps\<close>

text \<open>
  A Go map is a list of entries with distinct keys, or nil (\<open>None\<close>). Reading a nil
  map gives the zero value, \<^verbatim>\<open>delete\<close> on it does nothing, \<^verbatim>\<open>len\<close> of it is 0,
  an assignment into it panics. The order of the list stands for the (unspecified)
  iteration order of \<^verbatim>\<open>range\<close>.
\<close>

type_synonym 'k gomap = "('k \<times> EnvContext) list option"

definition map_index :: "'k gomap \<Rightarrow> 'k \<Rightarrow> EnvContext option" where
  "map_index m k = (case m of None \<Rightarrow> None | Some al \<Rightarrow> map_of al k)"

definition map_assign :: "'k gomap \<Rightarrow> 'k \<Rightarrow> EnvContext \<Rightarrow> 'k gomap option" where
  "map_assign m k v = (case m of None \<Rightarrow> None | Some al \<Rightarrow> Some (Some (AList.update k v al)))"

definition map_delete :: "'k gomap \<Rightarrow> 'k \<Rightarrow> 'k gomap" where
  "map_delete m k = (case m of None \<Rightarrow> None | Some al \<Rightarrow> Some (AList.delete k al))"

definition map_len :: "'k gomap \<Rightarrow> nat" where
  "map_len m = (case m of None \<Rightarrow> 0 | Some al \<Rightarrow> length al)"

definition map_range :: "'k gomap \<Rightarrow> EnvContext list" where
  "map_range m = (case m of None \<Rightarrow> [] | Some al \<Rightarrow> map snd al)"

subsection \<open>The core and the objects it owns\<close>

datatype streamProvider =
    serverSideStreamProvider
  | serverSideFlagsStreamProvider
  | mobileStreamProvider
  | jsClientStreamProvider

text \<open>What a \<^verbatim>\<open>Close()\<close> call can be made on: the metrics manager, an EnvContext
  (by its identity) and a stream provider.\<close>

datatype resource =
    MetricsManager
  | Environment nat
  | StreamProvider streamProvider

text \<open>
  \<open>constructed\<close> lists the EnvContexts the core has constructed, oldest first (the
  position of a context in it is its identity), \<open>closeCalls\<close> is the sequence of
  \<^verbatim>\<open>Close()\<close> calls the core has made on the objects it owns, \<open>loggers\<close> the
  warnings written.
\<close>

record RelayCore =
  allEnvironments :: "string gomap"
  envsByMobileKey :: "string gomap"
  envsByEnvID :: "string gomap"
  closed :: bool
  closeCalls :: "resource list"
  loggers :: "string list"
  constructed :: "EnvContext list"

text \<open>The core as the struct literal of \<^verbatim>\<open>NewRelayCore\<close> makes it, before the
  configured environments are added to it (each by \<^verbatim>\<open>AddEnvironment\<close>): three empty
  maps, not closed.\<close>

definition emptyRelayCore :: RelayCore where
  "emptyRelayCore =
     \<lparr> allEnvironments = Some [], envsByMobileKey = Some [], envsByEnvID = Some [],
       closed = False, closeCalls = [], loggers = [], constructed = [] \<rparr>"

definition allStreamProviders :: "streamProvider list" where
  "allStreamProviders =
     [serverSideStreamProvider, serverSideFlagsStreamProvider,
      mobileStreamProvider, jsClientStreamProvider]"

definition GetEnvironment :: "RelayCore \<Rightarrow> SDKCredential \<Rightarrow> EnvContext option" where
  "GetEnvironment r credential =
     (case credential of
        SDKKey c \<Rightarrow> map_index (allEnvironments r) c
      | MobileKey c \<Rightarrow> map_index (envsByMobileKey r) c
      | EnvironmentID c \<Rightarrow> map_index (envsByEnvID r) c
      | OtherCredential \<Rightarrow> None)"

definition GetAllEnvironments :: "RelayCore \<Rightarrow> (string \<times> EnvContext) list" where
  "GetAllEnvironments r = (case allEnvironments r of None \<Rightarrow> [] | Some al \<Rightarrow> al)"

definition newJSClientContext :: "EnvConfig \<Rightarrow> JSClientContext" where
  "newJSClientContext envConfig =
     (if cfgEnvID envConfig \<noteq> []
      then \<lparr> Origins = cfgAllowedOrigin envConfig, Proxy = Some (cfgInsecureSkipVerify envConfig) \<rparr>
      else \<lparr> Origins = [], Proxy = None \<rparr>)"

definition NewEnvContext :: "nat \<Rightarrow> string \<Rightarrow> EnvConfig \<Rightarrow> outcome \<Rightarrow> EnvContext" where
  "NewEnvContext i envName envConfig x =
     \<lparr> ctxID = i, ctxName = envName,
       ctxCredentials = \<lparr> credSDKKey = cfgSDKKey envConfig,
                          credMobileKey = cfgMobileKey envConfig,
                          credEnvironmentID = cfgEnvID envConfig \<rparr>,
       ctxJSClient = newJSClientContext envConfig,
       ctxInitError = willInitError x, ctxCloseErr = willCloseErr x \<rparr>"

text \<open>
  \<^verbatim>\<open>AddEnvironment\<close>: the closed check, the data store configuration, the
  construction of the context, then the three index assignments (the mobile key and
  the environment ID only when they are not the empty string). An assignment into a
  nil map panics and leaves the assignments made before it in place.
\<close>

definition AddEnvironment ::
  "string \<Rightarrow> EnvConfig \<Rightarrow> outcome \<Rightarrow> RelayCore \<Rightarrow> (error + EnvContext) \<times> RelayCore" where
  "AddEnvironment envName envConfig x r =
     (if closed r then (Inl errAlreadyClosed, r)
      else case ConfigureDataStoreErr x of
        Some e \<Rightarrow> (Inl (errDataStore e), r)
      | None \<Rightarrow>
        (case NewEnvContextErr x of
           Some e \<Rightarrow> (Inl (errNewClientContextFailed envName e), r)
         | None \<Rightarrow>
           let clientContext = NewEnvContext (length (constructed r)) envName envConfig x;
               r0 = r\<lparr>constructed := constructed r @ [clientContext]\<rparr>
           in (case map_assign (allEnvironments r0) (cfgSDKKey envConfig) clientContext of
                 None \<Rightarrow> (Inl panicNilMap, r0)
               | Some m1 \<Rightarrow>
                 let r1 = r0\<lparr>allEnvironments := m1\<rparr>
                 in (case (if cfgMobileKey envConfig \<noteq> []
                           then map_assign (envsByMobileKey r1) (cfgMobileKey envConfig) clientContext
                           else Some (envsByMobileKey r1)) of
                       None \<Rightarrow> (Inl panicNilMap, r1)
                     | Some m2 \<Rightarrow>
                       let r2 = r1\<lparr>envsByMobileKey := m2\<rparr>
                       in (case (if cfgEnvID envConfig \<noteq> []
                                 then map_assign (envsByEnvID r2) (cfgEnvID envConfig) clientContext
                                 else Some (envsByEnvID r2)) of
                             None \<Rightarrow> (Inl panicNilMap, r2)
                           | Some m3 \<Rightarrow> (Inr clientContext, r2\<lparr>envsByEnvID := m3\<rparr>))))))"

text \<open>\<^verbatim>\<open>env.Close()\<close> as the core calls it: the call is recorded, and a non-nil
  error is logged as a warning.\<close>

definition closeEnv :: "EnvContext \<Rightarrow> RelayCore \<Rightarrow> RelayCore" where
  "closeEnv env r =
     r\<lparr> closeCalls := closeCalls r @ [Environment (ctxID env)],
        loggers := loggers r @
          (case ctxCloseErr env of
             None \<Rightarrow> []
           | Some e \<Rightarrow> [''unexpected error when closing environment: '' @ e]) \<rparr>"

definition RemoveEnvironment :: "string \<Rightarrow> RelayCore \<Rightarrow> bool \<times> RelayCore" where
  "RemoveEnvironment sdkKey r =
     (case map_index (allEnvironments r) sdkKey of
        None \<Rightarrow> (False, r)
      | Some env \<Rightarrow>
        let r1 = r\<lparr> allEnvironments := map_delete (allEnvironments r) sdkKey,
                     envsByMobileKey :=
                       map_delete (envsByMobileKey r) (credMobileKey (ctxCredentials env)),
                     envsByEnvID :=
                       map_delete (envsByEnvID r) (credEnvironmentID (ctxCredentials env)) \<rparr>
        in (True, closeEnv env r1))"

definition closeProvider :: "streamProvider \<Rightarrow> RelayCore \<Rightarrow> RelayCore" where
  "closeProvider sp r = r\<lparr>closeCalls := closeCalls r @ [StreamProvider sp]\<rparr>"

definition Close :: "RelayCore \<Rightarrow> RelayCore" where
  "Close r =
     (if closed r then r
      else
        let envs = allEnvironments r;
            r1 = r\<lparr> closed := True, allEnvironments := None,
                     envsByMobileKey := None, envsByEnvID := None \<rparr>;
            r2 = r1\<lparr>closeCalls := closeCalls r1 @ [MetricsManager]\<rparr>;
            r3 = fold closeEnv (map_range envs) r2
        in fold closeProvider allStreamProviders r3)"

subsection \<open>Reachable states\<close>

text \<open>The states a core can be in: the fresh core of \<^verbatim>\<open>NewRelayCore\<close>, and what
  the three mutating operations make of a reachable state, whatever their arguments
  and whatever the outside world answers.\<close>

inductive reachable :: "RelayCore \<Rightarrow> bool" where
  reach_new: "reachable emptyRelayCore"
| reach_add: "reachable r \<Longrightarrow> reachable (snd (AddEnvironment envName envConfig x r))"
| reach_remove: "reachable r \<Longrightarrow> reachable (snd (RemoveEnvironment sdkKey r))"
| reach_close: "reachable r \<Longrightarrow> reachable (Close r)"

text \<open>A credential belongs to a context when it is one of the credentials the context
  was constructed with (an empty mobile key or environment ID is "not set").\<close>

definition hasCredential :: "EnvContext \<Rightarrow> SDKCredential \<Rightarrow> bool" where
  "hasCredential env c =
     (case c of
        SDKKey k \<Rightarrow> credSDKKey (ctxCredentials env) = k
      | MobileKey k \<Rightarrow> k \<noteq> [] \<and> credMobileKey (ctxCredentials env) = k
      | EnvironmentID k \<Rightarrow> k \<noteq> [] \<and> credEnvironmentID (ctxCredentials env) = k
      | OtherCredential \<Rightarrow> False)"

text \<open>A context is live in a core when the core has constructed it and has not called
  \<^verbatim>\<open>Close()\<close> on it.\<close>

definition live :: "RelayCore \<Rightarrow> EnvContext \<Rightarrow> bool" where
  "live r env \<longleftrightarrow>
     env \<in> set (constructed r) \<and> Environment (ctxID env) \<notin> set (closeCalls r)"




subsection \<open>The invariant of the reachable states\<close>

text \<open>An index is nil exactly in a closed core; otherwise its keys are distinct and
  every entry maps a credential to a live context that has this credential.\<close>

definition index_ok :: "RelayCore \<Rightarrow> (string \<Rightarrow> SDKCredential) \<Rightarrow> string gomap \<Rightarrow> bool" where
  "index_ok r C m =
     (case m of
        None \<Rightarrow> closed r
      | Some al \<Rightarrow>
          \<not> closed r \<and> distinct (map fst al) \<and>
          (\<forall>(k, env) \<in> set al. hasCredential env (C k) \<and> live r env))"

definition closeCall_ok :: "RelayCore \<Rightarrow> resource \<Rightarrow> bool" where
  "closeCall_ok r x =
     (case x of
        Environment i \<Rightarrow> i < length (constructed r)
      | MetricsManager \<Rightarrow> closed r
      | StreamProvider sp \<Rightarrow> closed r)"

definition core_inv :: "RelayCore \<Rightarrow> bool" where
  "core_inv r \<longleftrightarrow>
     index_ok r SDKKey (allEnvironments r) \<and>
     index_ok r MobileKey (envsByMobileKey r) \<and>
     index_ok r EnvironmentID (envsByEnvID r) \<and>
     map ctxID (constructed r) = [0..<length (constructed r)] \<and>
     distinct (closeCalls r) \<and>
     (\<forall>x \<in> set (closeCalls r). closeCall_ok r x)"


subsection \<open>Sequences of operations\<close>

datatype operation =
    OpAddEnvironment string EnvConfig outcome
  | OpRemoveEnvironment string
  | OpClose

fun step :: "operation \<Rightarrow> RelayCore \<Rightarrow> RelayCore" where
  "step (OpAddEnvironment envName envConfig x) r = snd (AddEnvironment envName envConfig x r)"
| "step (OpRemoveEnvironment sdkKey) r = snd (RemoveEnvironment sdkKey r)"
| "step OpClose r = Close r"

definition run :: "operation list \<Rightarrow> RelayCore \<Rightarrow> RelayCore" where
  "run ops r = fold step ops r"

subsection \<open>The environments of the end-to-end scenarios\<close>

text \<open>Scenario 1 of the specification: an environment with server key \<open>sdk-A\<close>,
  mobile key \<open>mob-A\<close> and environment ID \<open>env-A\<close>; \<open>envConfigA'\<close> is a second
  configuration with the same server key and no other credential.\<close>

definition envConfigA :: EnvConfig where
  "envConfigA =
     \<lparr> cfgSDKKey = ''sdk-A'', cfgMobileKey = ''mob-A'', cfgEnvID = ''env-A'',
       cfgAllowedOrigin = [], cfgInsecureSkipVerify = False \<rparr>"

definition envConfigA' :: EnvConfig where
  "envConfigA' =
     \<lparr> cfgSDKKey = ''sdk-A'', cfgMobileKey = [], cfgEnvID = [],
       cfgAllowedOrigin = [], cfgInsecureSkipVerify = False \<rparr>"

definition succeeds :: outcome where
  "succeeds =
     \<lparr> ConfigureDataStoreErr = None, NewEnvContextErr = None,
       willInitError = None, willCloseErr = None \<rparr>"

definition coreA :: RelayCore where
  "coreA = snd (AddEnvironment ''A'' envConfigA succeeds emptyRelayCore)"






subsection \<open>Waiting for the initial environments\<close>

text \<open>
  \<^verbatim>\<open>WaitForAllClients\<close> starts a goroutine that receives from the shared channel
  \<^verbatim>\<open>clientInitCh\<close> until \<open>numFinished\<close> reaches \<open>numEnvironments\<close>, the length of
  \<open>allEnvironments\<close> at the time of the call, and then sends \<open>failed\<close>. The list
  \<open>ch\<close> is what the channel delivers to that goroutine, in order; when the list is
  used up before the loop ends, the goroutine blocks for ever (\<open>None\<close>).
\<close>

fun collect :: "nat \<Rightarrow> nat \<Rightarrow> bool \<Rightarrow> EnvContext list \<Rightarrow> bool option" where
  "collect numEnvironments numFinished failed [] =
     (if numFinished < numEnvironments then None else Some failed)"
| "collect numEnvironments numFinished failed (ctx # rest) =
     (if numFinished < numEnvironments
      then collect numEnvironments (Suc numFinished)
             (if ctxInitError ctx \<noteq> None then True else failed) rest
      else Some failed)"

text \<open>
  The \<^verbatim>\<open>select\<close> waits for the goroutine's result and, when the timeout is
  positive, for the timer as well; which of two ready cases it takes is up to the
  scheduler. The model lists the results the call can return: the result of the
  goroutine when the goroutine finishes, and the timeout error when a timer was
  started. The empty list is a call that never returns. (\<open>None\<close> is the nil error.)
\<close>

definition WaitForAllClients :: "RelayCore \<Rightarrow> int \<Rightarrow> EnvContext list \<Rightarrow> error option list" where
  "WaitForAllClients r timeout ch =
     (case collect (map_len (allEnvironments r)) 0 False ch of
        None \<Rightarrow> []
      | Some failed \<Rightarrow> [if failed then Some errSomeEnvironmentFailed else None]) @
     (if timeout > 0 then [Some errInitializationTimeout] else [])"

text \<open>What the call returns when it does not time out and the reports it has counted
  are those of the environments in the index: an error iff one of them failed.\<close>

definition initResult :: "RelayCore \<Rightarrow> error option" where
  "initResult r =
     (if \<exists>env \<in> set (map_range (allEnvironments r)). ctxInitError env \<noteq> None
      then Some errSomeEnvironmentFailed else None)"

text \<open>A core with two environments, the first of which fails to initialise, after the
  first has been removed again.\<close>

definition envConfigB :: EnvConfig where
  "envConfigB =
     \<lparr> cfgSDKKey = ''sdk-B'', cfgMobileKey = [], cfgEnvID = [],
       cfgAllowedOrigin = [], cfgInsecureSkipVerify = False \<rparr>"

definition failsInit :: outcome where
  "failsInit =
     \<lparr> ConfigureDataStoreErr = None, NewEnvContextErr = None,
       willInitError = Some ''invalid SDK key'', willCloseErr = None \<rparr>"

definition coreB :: RelayCore where
  "coreB =
     run [OpAddEnvironment ''A'' envConfigA failsInit,
          OpAddEnvironment ''B'' envConfigB succeeds,
          OpRemoveEnvironment ''sdk-A''] emptyRelayCore"

section \<open>Event relay\<close>

text \<open>The first Go file of \<^verbatim>\<open>event-relay.go\<close> (package \<^verbatim>\<open>events\<close>): the handler
  that accepts posted event batches and the verbatim relay that forwards them.\<close>

subsection \<open>Configuration and endpoints\<close>

record Config =
  EventsUri :: string
  SendEvents :: bool
  FlushIntervalSecs :: int
  SamplingInterval :: "32 word"
  Capacity :: int
  InlineUsers :: bool

datatype Endpoint =
    ServerSDKEventsEndpoint
  | MobileSDKEventsEndpoint
  | JavaScriptSDKEventsEndpoint

fun Endpoint_String :: "Endpoint \<Rightarrow> string" where
  "Endpoint_String ServerSDKEventsEndpoint = ''ServerSDKEventsEndpoint''"
| "Endpoint_String MobileSDKEventsEndpoint = ''MobileSDKEventsEndpoint''"
| "Endpoint_String JavaScriptSDKEventsEndpoint = ''JavaScriptSDKEventsEndpoint''"

definition SummaryEventsSchemaVersion :: int where
  "SummaryEventsSchemaVersion = 3"

definition EventSchemaHeader :: string where
  "EventSchemaHeader = ''X-LaunchDarkly-Event-Schema''"

subsection \<open>The Go library functions the handler calls\<close>

text \<open>
  \<^verbatim>\<open>strconv.Atoi(s)\<close> is \<^verbatim>\<open>ParseInt(s, 10, 0)\<close> converted to \<^verbatim>\<open>int\<close> (64 bits).
  \<^verbatim>\<open>ParseUint\<close> reads the digits from the left: a byte that is not a decimal digit
  ends it with the value 0 and a syntax error, a value that leaves the 64-bit range
  ends it with the largest value and a range error. \<^verbatim>\<open>ParseInt\<close> takes an optional
  sign off first; on a range error it returns the bound of the sign, \<open>2^63 - 1\<close> or
  \<open>- 2^63\<close>, together with the error.
\<close>

datatype NumError = ErrSyntax | ErrRange

definition digit :: "char \<Rightarrow> nat option" where
  "digit c =
     (if (48::nat) \<le> of_char c \<and> of_char c \<le> (57::nat) then Some (of_char c - 48) else None)"

definition maxUint64 :: nat where
  "maxUint64 = 2 ^ 64 - 1"

fun parseDigits :: "nat \<Rightarrow> string \<Rightarrow> nat \<times> NumError option" where
  "parseDigits n [] = (n, None)"
| "parseDigits n (c # cs) =
     (case digit c of
        None \<Rightarrow> (0, Some ErrSyntax)
      | Some d \<Rightarrow>
          if n \<ge> maxUint64 div 10 + 1 then (maxUint64, Some ErrRange)
          else if n * 10 + d > maxUint64 then (maxUint64, Some ErrRange)
          else parseDigits (n * 10 + d) cs)"

definition ParseUint :: "string \<Rightarrow> nat \<times> NumError option" where
  "ParseUint s = (if s = [] then (0, Some ErrSyntax) else parseDigits 0 s)"

definition ParseInt :: "string \<Rightarrow> int \<times> NumError option" where
  "ParseInt s =
     (case s of
        [] \<Rightarrow> (0, Some ErrSyntax)
      | c # cs \<Rightarrow>
          let neg = (c = CHR ''-'');
              s' = (if c = CHR ''+'' \<or> c = CHR ''-'' then cs else s);
              (un, err) = ParseUint s'
          in if err = Some ErrSyntax then (0, err)
             else if \<not> neg \<and> un \<ge> 2 ^ 63 then (2 ^ 63 - 1, Some ErrRange)
             else if neg \<and> un > 2 ^ 63 then (- (2 ^ 63), Some ErrRange)
             else (if neg then - int un else int un, None))"

definition Atoi :: "string \<Rightarrow> int \<times> NumError option" where
  "Atoi s = ParseInt s"

text \<open>
  \<^verbatim>\<open>http.Header\<close> maps canonical header names to their values;
  \<^verbatim>\<open>Header.Get\<close> canonicalises the name it is asked for (an upper-case letter at the
  start and after each hyphen, lower case elsewhere) and returns the first value, or
  the empty string when there is none. A name that holds a byte which is not a token
  character of a header field (a space, for one) is left as it is.
\<close>

definition toUpper :: "char \<Rightarrow> char" where
  "toUpper c =
     (if (97::nat) \<le> of_char c \<and> of_char c \<le> (122::nat) then char_of (of_char c - (32::nat)) else c)"

definition toLower :: "char \<Rightarrow> char" where
  "toLower c =
     (if (65::nat) \<le> of_char c \<and> of_char c \<le> (90::nat) then char_of (of_char c + (32::nat)) else c)"

definition validHeaderFieldByte :: "char \<Rightarrow> bool" where
  "validHeaderFieldByte c \<longleftrightarrow>
     ((48::nat) \<le> of_char c \<and> of_char c \<le> (57::nat)) \<or>
     ((65::nat) \<le> of_char c \<and> of_char c \<le> (90::nat)) \<or>
     ((97::nat) \<le> of_char c \<and> of_char c \<le> (122::nat)) \<or>
     c \<in> set ''!#$%&*+-.^_`|~'' \<or> of_char c = (39::nat)"

fun canonicalKey :: "bool \<Rightarrow> string \<Rightarrow> string" where
  "canonicalKey upper [] = []"
| "canonicalKey upper (c # cs) =
     (let c' = (if upper then toUpper c else toLower c)
      in c' # canonicalKey (c' = CHR ''-'') cs)"

definition CanonicalMIMEHeaderKey :: "string \<Rightarrow> string" where
  "CanonicalMIMEHeaderKey s =
     (if list_all validHeaderFieldByte s then canonicalKey True s else s)"

type_synonym Header = "(string \<times> string list) list"

definition Header_Get :: "Header \<Rightarrow> string \<Rightarrow> string" where
  "Header_Get h key =
     (case map_of h (CanonicalMIMEHeaderKey key) of
        None \<Rightarrow> []
      | Some [] \<Rightarrow> []
      | Some (v # vs) \<Rightarrow> v)"

text \<open>\<^verbatim>\<open>strings.TrimRight(s, "/")\<close> and \<^verbatim>\<open>time.Duration(n) * time.Second\<close> (a
  64-bit product).\<close>

definition TrimRight_slash :: "string \<Rightarrow> string" where
  "TrimRight_slash s = rev (dropWhile (\<lambda>c. c = CHR ''/'') (rev s))"

definition Seconds :: "int \<Rightarrow> int" where
  "Seconds n = sint (word_of_int (n * 1000000000) :: 64 word)"

text \<open>
  Modelled from the spec: \<^verbatim>\<open>util.ErrorJsonMsg\<close> is not among the source files. The
  specification gives the body of the empty-body response as
  \<^verbatim>\<open>{"message":"body may not be empty"}\<close>: the JSON error envelope around the message.
\<close>

definition ErrorJsonMsg :: "string \<Rightarrow> string" where
  \<open>ErrorJsonMsg msg = ''{"message":"'' @ msg @ ''"}''\<close>

subsection \<open>Relays and publishers\<close>

datatype OptionType =
    OptionCapacity int
  | OptionEndpointURI string
  | OptionClient
  | OptionFlushInterval int

text \<open>
  Modelled from the spec: \<^verbatim>\<open>NewHttpEventPublisher\<close>, the \<^verbatim>\<open>EventPublisher\<close>
  interface and the summarizing relay are not among the source files. A publisher is
  known by the key and the options it was constructed with, a summarizing relay by the
  arguments of \<^verbatim>\<open>newEventSummarizingRelay\<close>; the calls made on them are recorded in
  the \<open>publishCalls\<close> and \<open>summarizeCalls\<close> of the process state below.
\<close>

record HttpEventPublisher =
  pubSdkKey :: string
  pubOptions :: "OptionType list"

record eventVerbatimRelay =
  relayConfig :: Config
  publisher :: HttpEventPublisher

record eventSummarizingRelay =
  sumAuthKey :: string
  sumConfig :: Config
  sumRemotePath :: string

record eventEndpointDispatcher =
  dispConfig :: Config
  authKey :: string
  remotePath :: string
  verbatimRelay :: "eventVerbatimRelay option"
  summarizingRelay :: "eventSummarizingRelay option"

definition newEventEndpointDispatcher :: "string \<Rightarrow> Config \<Rightarrow> string \<Rightarrow> eventEndpointDispatcher" where
  "newEventEndpointDispatcher key cfg path =
     \<lparr> dispConfig = cfg, authKey = key, remotePath = path,
       verbatimRelay = None, summarizingRelay = None \<rparr>"

text \<open>\<^verbatim>\<open>NewEventDispatcher\<close>: the server endpoint always, the mobile endpoint when a
  mobile key is given, the JavaScript endpoint when an environment ID is given.
  \<^verbatim>\<open>GetHandler\<close> gives the endpoint's dispatcher, or nil.\<close>

record EventDispatcher =
  endpoints :: "Endpoint \<Rightarrow> eventEndpointDispatcher option"

definition NewEventDispatcher ::
  "string \<Rightarrow> string option \<Rightarrow> string option \<Rightarrow> Config \<Rightarrow> EventDispatcher" where
  "NewEventDispatcher sdkKey mobileKey envID cfg =
     \<lparr> endpoints =
         (\<lambda>ep. case ep of
            ServerSDKEventsEndpoint \<Rightarrow> Some (newEventEndpointDispatcher sdkKey cfg ''/bulk'')
          | MobileSDKEventsEndpoint \<Rightarrow>
              (case mobileKey of
                 None \<Rightarrow> None
               | Some k \<Rightarrow> Some (newEventEndpointDispatcher k cfg ''/mobile''))
          | JavaScriptSDKEventsEndpoint \<Rightarrow>
              (case envID of
                 None \<Rightarrow> None
               | Some e \<Rightarrow> Some (newEventEndpointDispatcher [] cfg (''/events/bulk/'' @ e)))) \<rparr>"

definition GetHandler :: "EventDispatcher \<Rightarrow> Endpoint \<Rightarrow> eventEndpointDispatcher option" where
  "GetHandler r endpoint = endpoints r endpoint"

definition newEventVerbatimRelay :: "string \<Rightarrow> Config \<Rightarrow> string \<Rightarrow> eventVerbatimRelay" where
  "newEventVerbatimRelay sdkKey cfg path =
     \<lparr> relayConfig = cfg,
       publisher =
         \<lparr> pubSdkKey = sdkKey,
           pubOptions =
             [OptionCapacity (Capacity cfg),
              OptionEndpointURI (TrimRight_slash (EventsUri cfg) @ path),
              OptionClient] @
             (if FlushIntervalSecs cfg > 0
              then [OptionFlushInterval (Seconds (FlushIntervalSecs cfg))] else []) \<rparr> \<rparr>"

definition newEventSummarizingRelay :: "string \<Rightarrow> Config \<Rightarrow> string \<Rightarrow> eventSummarizingRelay" where
  "newEventSummarizingRelay key cfg path =
     \<lparr> sumAuthKey = key, sumConfig = cfg, sumRemotePath = path \<rparr>"

definition getVerbatimRelay ::
  "eventEndpointDispatcher \<Rightarrow> eventVerbatimRelay \<times> eventEndpointDispatcher" where
  "getVerbatimRelay d =
     (case verbatimRelay d of
        None \<Rightarrow>
          (newEventVerbatimRelay (authKey d) (dispConfig d) (remotePath d),
           d\<lparr>verbatimRelay :=
               Some (newEventVerbatimRelay (authKey d) (dispConfig d) (remotePath d))\<rparr>)
      | Some er \<Rightarrow> (er, d))"

definition getSummarizingRelay ::
  "eventEndpointDispatcher \<Rightarrow> eventSummarizingRelay \<times> eventEndpointDispatcher" where
  "getSummarizingRelay d =
     (case summarizingRelay d of
        None \<Rightarrow>
          (newEventSummarizingRelay (authKey d) (dispConfig d) (remotePath d),
           d\<lparr>summarizingRelay :=
               Some (newEventSummarizingRelay (authKey d) (dispConfig d) (remotePath d))\<rparr>)
      | Some sr \<Rightarrow> (sr, d))"

subsection \<open>The process state and the outside world\<close>

datatype logLine =
    ErrorReadingBody string
  | ErrorUnmarshaling string
  | UnexpectedPanic string
  | ReceivedEvents nat int string

text \<open>
  What the handler and its goroutine change: the state \<open>rGen\<close> of the process-wide
  generator (seeded from the clock in \<^verbatim>\<open>init\<close>, so any state can be the first), the
  \<^verbatim>\<open>PublishRaw\<close> calls made on publishers, the \<^verbatim>\<open>enqueue\<close> calls made on summarizing
  relays, the lines written to \<^verbatim>\<open>r.loggers\<close> at error level and to the global loggers
  at debug level.
\<close>

record 'g process =
  rGen :: 'g
  publishCalls :: "(HttpEventPublisher \<times> string list) list"
  summarizeCalls :: "(eventSummarizingRelay \<times> string list \<times> int) list"
  errorLog :: "logLine list"
  debugLog :: "logLine list"

text \<open>
  What the code outside the source files does: \<^verbatim>\<open>rand.Rand.Int31n\<close> on a generator
  state, \<^verbatim>\<open>json.Unmarshal\<close> of a body into raw messages (\<open>Inl\<close> is its error), and
  whether a call of \<^verbatim>\<open>PublishRaw\<close> or of the summarizing relay's \<^verbatim>\<open>enqueue\<close>
  panics (\<open>Some v\<close> is a panic with value \<open>v\<close>).
\<close>

record 'g library =
  Int31n :: "'g \<Rightarrow> 32 word \<Rightarrow> 32 word \<times> 'g"
  Unmarshal :: "string \<Rightarrow> string + string list"
  PublishRawPanics :: "HttpEventPublisher \<Rightarrow> string list \<Rightarrow> string option"
  summarizePanics :: "eventSummarizingRelay \<Rightarrow> string list \<Rightarrow> int \<Rightarrow> string option"

definition PublishRaw ::
  "'g library \<Rightarrow> HttpEventPublisher \<Rightarrow> string list \<Rightarrow> 'g process \<Rightarrow> 'g process \<times> string option" where
  "PublishRaw lib p evts w =
     (w\<lparr>publishCalls := publishCalls w @ [(p, evts)]\<rparr>, PublishRawPanics lib p evts)"

definition summarizing_enqueue ::
  "'g library \<Rightarrow> eventSummarizingRelay \<Rightarrow> string list \<Rightarrow> int \<Rightarrow> 'g process \<Rightarrow>
     'g process \<times> string option" where
  "summarizing_enqueue lib sr evts payloadVersion w =
     (w\<lparr>summarizeCalls := summarizeCalls w @ [(sr, evts, payloadVersion)]\<rparr>,
      summarizePanics lib sr evts payloadVersion)"

subsection \<open>The verbatim relay\<close>

text \<open>\<^verbatim>\<open>eventVerbatimRelay.enqueue\<close>: nothing when \<open>SendEvents\<close> is off; with a
  positive sampling interval one draw from the generator, and nothing more unless the
  draw is 0; otherwise the batch goes to \<^verbatim>\<open>PublishRaw\<close>. The second component is the
  value of a panic, if the call panicked.\<close>

definition enqueue ::
  "'g library \<Rightarrow> eventVerbatimRelay \<Rightarrow> string list \<Rightarrow> 'g process \<Rightarrow> 'g process \<times> string option" where
  "enqueue lib er evts w =
     (if \<not> SendEvents (relayConfig er) then (w, None)
      else if 0 < sint (SamplingInterval (relayConfig er)) then
        (case Int31n lib (rGen w) (SamplingInterval (relayConfig er)) of
           (v, g') \<Rightarrow>
             if v \<noteq> 0 then (w\<lparr>rGen := g'\<rparr>, None)
             else PublishRaw lib (publisher er) evts (w\<lparr>rGen := g'\<rparr>))
      else PublishRaw lib (publisher er) evts w)"

subsection \<open>The handler\<close>

record request =
  reqBody :: string
  reqBodyErr :: "string option"
  reqHeader :: Header

record response =
  statusCode :: nat
  written :: string

definition StatusBadRequest :: nat where
  "StatusBadRequest = 400"

definition StatusAccepted :: nat where
  "StatusAccepted = 202"

definition payloadVersionOf :: "request \<Rightarrow> int" where
  "payloadVersionOf req =
     (let payloadVersion = fst (Atoi (Header_Get (reqHeader req) EventSchemaHeader))
      in if payloadVersion = 0 then 1 else payloadVersion)"

text \<open>The deferred \<^verbatim>\<open>recover\<close> of the goroutine: a panic is logged.\<close>

definition recover :: "'g process \<times> string option \<Rightarrow> 'g process" where
  "recover wp =
     (case snd wp of
        None \<Rightarrow> fst wp
      | Some v \<Rightarrow> (fst wp)\<lparr>errorLog := errorLog (fst wp) @ [UnexpectedPanic v]\<rparr>)"

text \<open>The goroutine that \<^verbatim>\<open>dispatchEvents\<close> starts after it has answered: it works on
  the dispatcher and the process state and has no access to the response.\<close>

definition worker ::
  "'g library \<Rightarrow> request \<Rightarrow> eventEndpointDispatcher \<times> 'g process \<Rightarrow>
     eventEndpointDispatcher \<times> 'g process" where
  "worker lib req dw =
     (case Unmarshal lib (reqBody req) of
        Inl err \<Rightarrow> (fst dw, (snd dw)\<lparr>errorLog := errorLog (snd dw) @ [ErrorUnmarshaling err]\<rparr>)
      | Inr evts \<Rightarrow>
          let payloadVersion = payloadVersionOf req;
              w1 = (snd dw)\<lparr>debugLog := debugLog (snd dw) @
                     [ReceivedEvents (length evts) payloadVersion (remotePath (fst dw))]\<rparr>
          in if payloadVersion \<ge> SummaryEventsSchemaVersion
             then (snd (getVerbatimRelay (fst dw)),
                   recover (enqueue lib (fst (getVerbatimRelay (fst dw))) evts w1))
             else (snd (getSummarizingRelay (fst dw)),
                   recover (summarizing_enqueue lib (fst (getSummarizingRelay (fst dw)))
                     evts payloadVersion w1)))"

text \<open>
  \<^verbatim>\<open>dispatchEvents\<close> up to the \<^verbatim>\<open>go\<close> statement: the response, the process state,
  and whether a goroutine was started for this request.
\<close>

definition dispatchEvents ::
  "request \<Rightarrow> 'g process \<Rightarrow> response \<times> 'g process \<times> bool" where
  "dispatchEvents req w =
     (case reqBodyErr req of
        Some bodyErr \<Rightarrow>
          (\<lparr> statusCode = StatusBadRequest,
             written = ErrorJsonMsg ''unable to read request body'' \<rparr>,
           w\<lparr>errorLog := errorLog w @ [ErrorReadingBody bodyErr]\<rparr>, False)
      | None \<Rightarrow>
          if length (reqBody req) = 0
          then (\<lparr> statusCode = StatusBadRequest,
                  written = ErrorJsonMsg ''body may not be empty'' \<rparr>, w, False)
          else (\<lparr> statusCode = StatusAccepted, written = [] \<rparr>, w, True))"

text \<open>A whole request: the handler, then its goroutine if one was started.\<close>

definition serve ::
  "'g library \<Rightarrow> request \<Rightarrow> eventEndpointDispatcher \<times> 'g process \<Rightarrow>
     response \<times> eventEndpointDispatcher \<times> 'g process" where
  "serve lib req dw =
     (case dispatchEvents req (snd dw) of
        (resp, w', started) \<Rightarrow>
          if started then (resp, worker lib req (fst dw, w')) else (resp, fst dw, w'))"

text \<open>The panic, if any, of the relay call the goroutine makes for a parsed batch.\<close>

definition relayPanic ::
  "'g library \<Rightarrow> request \<Rightarrow> eventEndpointDispatcher \<times> 'g process \<Rightarrow> string list \<Rightarrow> string option" where
  "relayPanic lib req dw evts =
     (let w1 = (snd dw)\<lparr>debugLog := debugLog (snd dw) @
                 [ReceivedEvents (length evts) (payloadVersionOf req) (remotePath (fst dw))]\<rparr>
      in if payloadVersionOf req \<ge> 3
         then snd (enqueue lib (fst (getVerbatimRelay (fst dw))) evts w1)
         else snd (summarizing_enqueue lib (fst (getSummarizingRelay (fst dw))) evts
                (payloadVersionOf req) w1))"

subsection \<open>Concrete requests, configurations and libraries\<close>

text \<open>
  A library for concrete runs: its generator state is a counter and \<^verbatim>\<open>Int31n(n)\<close>
  returns the counter modulo \<open>n\<close>; it parses the one body \<^verbatim>\<open>[{}]\<close> and rejects every
  other; no call panics. \<open>panicLib\<close> differs in that every \<^verbatim>\<open>PublishRaw\<close> panics.
\<close>

definition counterLib :: "nat library" where
  "counterLib =
     \<lparr> Int31n = (\<lambda>g n. (word_of_nat g mod n, Suc g)),
       Unmarshal = (\<lambda>b. if b = ''[{}]'' then Inr [''{}''] else Inl ''invalid character''),
       PublishRawPanics = (\<lambda>p evts. None),
       summarizePanics = (\<lambda>sr evts v. None) \<rparr>"

definition panicLib :: "nat library" where
  "panicLib = counterLib\<lparr>PublishRawPanics := (\<lambda>p evts. Some ''nil pointer dereference'')\<rparr>"

text \<open>Three configurations: events switched off; events on with a sampling interval
  of 3; events on without sampling.\<close>

definition cfgOff :: Config where
  "cfgOff = \<lparr> EventsUri = ''https://events.example.com/'', SendEvents = False,
     FlushIntervalSecs = 5, SamplingInterval = 0, Capacity = 1000, InlineUsers = False \<rparr>"

definition cfgOn :: Config where
  "cfgOn = \<lparr> EventsUri = ''https://events.example.com/'', SendEvents = True,
     FlushIntervalSecs = 5, SamplingInterval = 3, Capacity = 1000, InlineUsers = False \<rparr>"

definition cfgAll :: Config where
  "cfgAll = \<lparr> EventsUri = ''https://events.example.com/'', SendEvents = True,
     FlushIntervalSecs = 5, SamplingInterval = 0, Capacity = 1000, InlineUsers = False \<rparr>"

definition process0 :: "nat process" where
  "process0 = \<lparr> rGen = 0, publishCalls = [], summarizeCalls = [], errorLog = [], debugLog = [] \<rparr>"

text \<open>A request with schema version 3, and a request whose schema version header is
  \<open>2^63\<close>, one more than the largest 64-bit \<^verbatim>\<open>int\<close>.\<close>

definition requestV3 :: "string \<Rightarrow> string option \<Rightarrow> request" where
  "requestV3 body err =
     \<lparr> reqBody = body, reqBodyErr = err,
       reqHeader = [(''X-Launchdarkly-Event-Schema'', [''3''])] \<rparr>"

definition requestHuge :: request where
  "requestHuge =
     \<lparr> reqBody = ''[{}]'', reqBodyErr = None,
       reqHeader = [(''X-Launchdarkly-Event-Schema'', [''9223372036854775808''])] \<rparr>"

section \<open>Properties of the relay core\<close>

subsection \<open>Association lists and the index invariant\<close>

lemma set_update_subset: "set (AList.update k v al) \<subseteq> insert (k, v) (set al)"
  by (induct al) auto

lemma set_delete_eq: "set (AList.delete k al) = {p \<in> set al. fst p \<noteq> k}"
  by (auto simp: AList.delete_eq)

lemma index_ok_SomeD:
  "index_ok r C (Some al) \<Longrightarrow> (k, env) \<in> set al \<Longrightarrow> hasCredential env (C k) \<and> live r env"
  by (auto simp: index_ok_def)

lemma index_ok_lookup:
  "index_ok r C m \<Longrightarrow> map_index m k = Some env \<Longrightarrow> hasCredential env (C k) \<and> live r env"
  by (auto simp: index_ok_def map_index_def split: option.splits dest!: map_of_SomeD)

lemma index_ok_open: "index_ok r C m \<Longrightarrow> \<not> closed r \<Longrightarrow> \<exists>al. m = Some al"
  by (auto simp: index_ok_def split: option.splits)

lemma index_ok_closed: "index_ok r C m \<Longrightarrow> closed r \<Longrightarrow> m = None"
  by (auto simp: index_ok_def split: option.splits)

lemma index_ok_update:
  assumes "index_ok r C (Some al)" and "hasCredential env (C k)" and "live r' env"
    and "closed r' = closed r" and "\<And>e. live r e \<Longrightarrow> live r' e"
  shows "index_ok r' C (Some (AList.update k env al))"
proof -
  have "distinct (map fst (AList.update k env al))"
    using assms(1) by (simp add: index_ok_def distinct_update)
  moreover have "\<forall>(k', e) \<in> set (AList.update k env al). hasCredential e (C k') \<and> live r' e"
    using assms set_update_subset [of k env al] by (fastforce simp: index_ok_def)
  ultimately show ?thesis using assms(1,4) by (simp add: index_ok_def)
qed

lemma index_ok_mono:
  assumes "index_ok r C m" and "closed r' = closed r" and "\<And>e. live r e \<Longrightarrow> live r' e"
  shows "index_ok r' C m"
  using assms by (auto simp: index_ok_def split: option.splits)

lemma AddEnvironment_closed: "closed r \<Longrightarrow> AddEnvironment n c x r = (Inl errAlreadyClosed, r)"
  by (simp add: AddEnvironment_def)

lemma AddEnvironment_success:
  assumes "allEnvironments r = Some al" and "envsByMobileKey r = Some am"
    and "envsByEnvID r = Some ae" and "\<not> closed r"
    and "ConfigureDataStoreErr x = None" and "NewEnvContextErr x = None"
  shows "AddEnvironment n c x r =
    (Inr (NewEnvContext (length (constructed r)) n c x),
     r\<lparr> constructed := constructed r @ [NewEnvContext (length (constructed r)) n c x],
        allEnvironments := Some (AList.update (cfgSDKKey c) (NewEnvContext (length (constructed r)) n c x) al),
        envsByMobileKey := Some (if cfgMobileKey c \<noteq> [] then AList.update (cfgMobileKey c) (NewEnvContext (length (constructed r)) n c x) am else am),
        envsByEnvID := Some (if cfgEnvID c \<noteq> [] then AList.update (cfgEnvID c) (NewEnvContext (length (constructed r)) n c x) ae else ae) \<rparr>)"
  using assms by (simp add: AddEnvironment_def map_assign_def Let_def)

lemma AddEnvironment_failure:
  assumes "\<not> closed r" and "ConfigureDataStoreErr x \<noteq> None \<or> NewEnvContextErr x \<noteq> None"
  shows "\<exists>e. AddEnvironment n c x r = (Inl e, r)"
  using assms by (auto simp: AddEnvironment_def split: option.splits)


subsection \<open>Every reachable state satisfies the invariant\<close>

lemma inv_new: "core_inv emptyRelayCore"
  by (simp add: core_inv_def emptyRelayCore_def index_ok_def)

lemma live_constructed_append:
  "live r e \<Longrightarrow> closeCalls r' = closeCalls r \<Longrightarrow> constructed r' = constructed r @ [v] \<Longrightarrow> live r' e"
  by (simp add: live_def)

lemma hasCredential_New:
  "hasCredential (NewEnvContext i n c x) (SDKKey (cfgSDKKey c))"
  "cfgMobileKey c \<noteq> [] \<Longrightarrow> hasCredential (NewEnvContext i n c x) (MobileKey (cfgMobileKey c))"
  "cfgEnvID c \<noteq> [] \<Longrightarrow> hasCredential (NewEnvContext i n c x) (EnvironmentID (cfgEnvID c))"
  by (simp_all add: hasCredential_def NewEnvContext_def)

lemma inv_add_success:
  assumes inv: "core_inv r" and op: "\<not> closed r"
    and ok: "ConfigureDataStoreErr x = None" "NewEnvContextErr x = None"
  shows "core_inv (snd (AddEnvironment n c x r))"
proof -
  let ?e = "NewEnvContext (length (constructed r)) n c x"
  from inv op obtain al am ae where maps:
    "allEnvironments r = Some al" "envsByMobileKey r = Some am" "envsByEnvID r = Some ae"
    unfolding core_inv_def by (meson index_ok_open)
  define r' where "r' = snd (AddEnvironment n c x r)"
  have r': "r' = r\<lparr> constructed := constructed r @ [?e],
        allEnvironments := Some (AList.update (cfgSDKKey c) ?e al),
        envsByMobileKey := Some (if cfgMobileKey c \<noteq> [] then AList.update (cfgMobileKey c) ?e am else am),
        envsByEnvID := Some (if cfgEnvID c \<noteq> [] then AList.update (cfgEnvID c) ?e ae else ae) \<rparr>"
    unfolding r'_def using AddEnvironment_success [OF maps op ok] by simp
  have cl: "closed r' = closed r" and cc: "closeCalls r' = closeCalls r"
    and co: "constructed r' = constructed r @ [?e]"
    by (simp_all add: r')
  have mono: "\<And>e. live r e \<Longrightarrow> live r' e"
    using cc co by (rule live_constructed_append [rotated])
  have idn: "ctxID ?e = length (constructed r)" by (simp add: NewEnvContext_def)
  have fresh: "Environment (ctxID ?e) \<notin> set (closeCalls r)"
  proof
    assume "Environment (ctxID ?e) \<in> set (closeCalls r)"
    with inv have "closeCall_ok r (Environment (ctxID ?e))" by (simp add: core_inv_def)
    then show False by (simp add: closeCall_ok_def idn)
  qed
  have lv: "live r' ?e" using fresh by (simp add: live_def cc co)
  have i1: "index_ok r' SDKKey (allEnvironments r')"
    using inv maps(1) hasCredential_New(1) lv cl mono
    by (simp add: r' core_inv_def index_ok_update [where r = r])
  have i2: "index_ok r' MobileKey (envsByMobileKey r')"
  proof (cases "cfgMobileKey c = []")
    case True
    then show ?thesis using inv maps(2) cl mono index_ok_mono [of r MobileKey "Some am" r']
      by (simp add: r' core_inv_def)
  next
    case False
    then show ?thesis using inv maps(2) hasCredential_New(2) lv cl mono
      by (simp add: r' core_inv_def index_ok_update [where r = r])
  qed
  have i3: "index_ok r' EnvironmentID (envsByEnvID r')"
  proof (cases "cfgEnvID c = []")
    case True
    then show ?thesis using inv maps(3) cl mono index_ok_mono [of r EnvironmentID "Some ae" r']
      by (simp add: r' core_inv_def)
  next
    case False
    then show ?thesis using inv maps(3) hasCredential_New(3) lv cl mono
      by (simp add: r' core_inv_def index_ok_update [where r = r])
  qed
  have ids: "map ctxID (constructed r') = [0..<length (constructed r')]"
    using inv by (simp add: co idn core_inv_def)
  have dc: "distinct (closeCalls r')" using inv by (simp add: cc core_inv_def)
  have ok': "\<forall>x \<in> set (closeCalls r'). closeCall_ok r' x"
    using inv by (auto simp: cc co cl core_inv_def closeCall_ok_def split: resource.splits)
  show ?thesis using i1 i2 i3 ids dc ok' unfolding r'_def [symmetric] core_inv_def by simp
qed

lemma inv_add: "core_inv r \<Longrightarrow> core_inv (snd (AddEnvironment n c x r))"
proof (cases "closed r")
  case True
  assume "core_inv r"
  then show ?thesis using True by (simp add: AddEnvironment_closed)
next
  case False
  assume inv: "core_inv r"
  show ?thesis
  proof (cases "ConfigureDataStoreErr x = None \<and> NewEnvContextErr x = None")
    case True
    then show ?thesis using inv False inv_add_success by blast
  next
    case False
    then obtain e where "AddEnvironment n c x r = (Inl e, r)"
      using AddEnvironment_failure [OF \<open>\<not> closed r\<close>, of x n c] by blast
    then show ?thesis using inv by simp
  qed
qed


lemma ctxID_inj:
  assumes "map ctxID (constructed r) = [0..<length (constructed r)]"
    and "e \<in> set (constructed r)" and "e' \<in> set (constructed r)" and "ctxID e = ctxID e'"
  shows "e = e'"
proof -
  have "distinct (map ctxID (constructed r))" by (simp add: assms(1))
  then have "inj_on ctxID (set (constructed r))" by (simp add: distinct_map)
  then show ?thesis using assms(2-4) by (auto dest: inj_onD)
qed

lemma ctxID_bound:
  assumes "map ctxID (constructed r) = [0..<length (constructed r)]"
    and "e \<in> set (constructed r)"
  shows "ctxID e < length (constructed r)"
proof -
  have "ctxID e \<in> set (map ctxID (constructed r))" using assms(2) by simp
  then show ?thesis by (simp add: assms(1))
qed

lemma closeEnv_fields [simp]:
  "closeCalls (closeEnv e r) = closeCalls r @ [Environment (ctxID e)]"
  "closed (closeEnv e r) = closed r"
  "constructed (closeEnv e r) = constructed r"
  "allEnvironments (closeEnv e r) = allEnvironments r"
  "envsByMobileKey (closeEnv e r) = envsByMobileKey r"
  "envsByEnvID (closeEnv e r) = envsByEnvID r"
  by (simp_all add: closeEnv_def)

lemma index_ok_delete:
  assumes ok: "index_ok r C (Some al)"
    and cl: "closed r' = closed r"
    and lv: "\<And>e. live r e \<Longrightarrow> e \<noteq> env \<Longrightarrow> live r' e"
    and own: "\<And>k'. hasCredential env (C k') \<Longrightarrow> k' = k"
  shows "index_ok r' C (Some (AList.delete k al))"
proof -
  have "distinct (map fst (AList.delete k al))"
    using ok by (simp add: index_ok_def distinct_delete)
  moreover have "\<forall>(k', e) \<in> set (AList.delete k al). hasCredential e (C k') \<and> live r' e"
  proof (clarify)
    fix k' e assume m: "(k', e) \<in> set (AList.delete k al)"
    then have in_al: "(k', e) \<in> set al" and ne: "k' \<noteq> k" by (auto simp: set_delete_eq)
    from ok in_al have h: "hasCredential e (C k')" and l: "live r e"
      by (auto dest: index_ok_SomeD)
    have "e \<noteq> env" using h ne own by blast
    then show "hasCredential e (C k') \<and> live r' e" using h l lv by blast
  qed
  ultimately show ?thesis using ok cl by (simp add: index_ok_def)
qed

lemma RemoveEnvironment_absent:
  "map_index (allEnvironments r) k = None \<Longrightarrow> RemoveEnvironment k r = (False, r)"
  by (simp add: RemoveEnvironment_def)

lemma RemoveEnvironment_present:
  "map_index (allEnvironments r) k = Some env \<Longrightarrow>
   RemoveEnvironment k r =
     (True, closeEnv env (r\<lparr> allEnvironments := map_delete (allEnvironments r) k,
        envsByMobileKey := map_delete (envsByMobileKey r) (credMobileKey (ctxCredentials env)),
        envsByEnvID := map_delete (envsByEnvID r) (credEnvironmentID (ctxCredentials env)) \<rparr>))"
  by (simp add: RemoveEnvironment_def)

lemma inv_remove: 
  assumes inv: "core_inv r"
  shows "core_inv (snd (RemoveEnvironment k r))"
proof (cases "map_index (allEnvironments r) k")
  case None
  then show ?thesis using inv by (simp add: RemoveEnvironment_absent)
next
  case (Some env)
  define r' where "r' = snd (RemoveEnvironment k r)"
  have r': "r' = closeEnv env (r\<lparr> allEnvironments := map_delete (allEnvironments r) k,
        envsByMobileKey := map_delete (envsByMobileKey r) (credMobileKey (ctxCredentials env)),
        envsByEnvID := map_delete (envsByEnvID r) (credEnvironmentID (ctxCredentials env)) \<rparr>)"
    unfolding r'_def by (simp add: RemoveEnvironment_present [OF Some])
  from inv Some have hk: "hasCredential env (SDKKey k)" and lenv: "live r env"
    using index_ok_lookup [of r SDKKey "allEnvironments r" k env] by (simp_all add: core_inv_def)
  have op: "\<not> closed r"
    using inv Some by (auto simp: core_inv_def map_index_def dest: index_ok_closed)
  from inv op obtain al am ae where maps:
    "allEnvironments r = Some al" "envsByMobileKey r = Some am" "envsByEnvID r = Some ae"
    unfolding core_inv_def by (meson index_ok_open)
  have ids: "map ctxID (constructed r) = [0..<length (constructed r)]"
    using inv by (simp add: core_inv_def)
  have cl: "closed r' = closed r" and co: "constructed r' = constructed r"
    and cc: "closeCalls r' = closeCalls r @ [Environment (ctxID env)]"
    by (simp_all add: r')
  have lv: "\<And>e. live r e \<Longrightarrow> e \<noteq> env \<Longrightarrow> live r' e"
  proof -
    fix e assume l: "live r e" and ne: "e \<noteq> env"
    have "ctxID e \<noteq> ctxID env"
      using ctxID_inj [OF ids, of e env] l lenv ne by (auto simp: live_def)
    then show "live r' e" using l by (simp add: live_def cc co)
  qed
  have i1: "index_ok r' SDKKey (allEnvironments r')"
  proof -
    have "index_ok r' SDKKey (Some (AList.delete (k) al))"
    proof (rule index_ok_delete [where r = r and env = env])
      show "index_ok r SDKKey (Some al)" using inv maps by (simp add: core_inv_def)
      show "closed r' = closed r" by (rule cl)
      show "\<And>e. live r e \<Longrightarrow> e \<noteq> env \<Longrightarrow> live r' e" by (rule lv)
      show "\<And>k'. hasCredential env (SDKKey k') \<Longrightarrow> k' = k"
        using hk by (simp add: hasCredential_def)
    qed
    then show ?thesis by (simp add: r' maps map_delete_def)
  qed
  have i2: "index_ok r' MobileKey (envsByMobileKey r')"
  proof -
    have "index_ok r' MobileKey (Some (AList.delete (credMobileKey (ctxCredentials env)) am))"
    proof (rule index_ok_delete [where r = r and env = env])
      show "index_ok r MobileKey (Some am)" using inv maps by (simp add: core_inv_def)
      show "closed r' = closed r" by (rule cl)
      show "\<And>e. live r e \<Longrightarrow> e \<noteq> env \<Longrightarrow> live r' e" by (rule lv)
      show "\<And>k'. hasCredential env (MobileKey k') \<Longrightarrow> k' = credMobileKey (ctxCredentials env)"
        using hk by (simp add: hasCredential_def)
    qed
    then show ?thesis by (simp add: r' maps map_delete_def)
  qed
  have i3: "index_ok r' EnvironmentID (envsByEnvID r')"
  proof -
    have "index_ok r' EnvironmentID (Some (AList.delete (credEnvironmentID (ctxCredentials env)) ae))"
    proof (rule index_ok_delete [where r = r and env = env])
      show "index_ok r EnvironmentID (Some ae)" using inv maps by (simp add: core_inv_def)
      show "closed r' = closed r" by (rule cl)
      show "\<And>e. live r e \<Longrightarrow> e \<noteq> env \<Longrightarrow> live r' e" by (rule lv)
      show "\<And>k'. hasCredential env (EnvironmentID k') \<Longrightarrow> k' = credEnvironmentID (ctxCredentials env)"
        using hk by (simp add: hasCredential_def)
    qed
    then show ?thesis by (simp add: r' maps map_delete_def)
  qed
  have dc: "distinct (closeCalls r')"
    using inv lenv by (simp add: cc core_inv_def live_def)
  have bound: "ctxID env < length (constructed r)"
    using ctxID_bound [OF ids] lenv by (simp add: live_def)
  have ok': "\<forall>x \<in> set (closeCalls r'). closeCall_ok r' x"
    using inv bound by (auto simp: cc co cl core_inv_def closeCall_ok_def split: resource.splits)
  show ?thesis using i1 i2 i3 ids dc ok' unfolding r'_def [symmetric] core_inv_def by (simp add: co)
qed


lemma fold_closeEnv_fields [simp]:
  "closeCalls (fold closeEnv es r) = closeCalls r @ map (\<lambda>e. Environment (ctxID e)) es"
  "closed (fold closeEnv es r) = closed r"
  "constructed (fold closeEnv es r) = constructed r"
  "allEnvironments (fold closeEnv es r) = allEnvironments r"
  "envsByMobileKey (fold closeEnv es r) = envsByMobileKey r"
  "envsByEnvID (fold closeEnv es r) = envsByEnvID r"
  by (induction es arbitrary: r; simp)+

lemma closeProvider_fields [simp]:
  "closeCalls (closeProvider sp r) = closeCalls r @ [StreamProvider sp]"
  "closed (closeProvider sp r) = closed r"
  "constructed (closeProvider sp r) = constructed r"
  "allEnvironments (closeProvider sp r) = allEnvironments r"
  "envsByMobileKey (closeProvider sp r) = envsByMobileKey r"
  "envsByEnvID (closeProvider sp r) = envsByEnvID r"
  "loggers (closeProvider sp r) = loggers r"
  by (simp_all add: closeProvider_def)

lemma Close_closed: "closed r \<Longrightarrow> Close r = r"
  by (simp add: Close_def)

lemma Close_fields:
  assumes "\<not> closed r"
  shows "closed (Close r)" "allEnvironments (Close r) = None"
    "envsByMobileKey (Close r) = None" "envsByEnvID (Close r) = None"
    "constructed (Close r) = constructed r"
    "closeCalls (Close r) =
       closeCalls r @ [MetricsManager] @
       map (\<lambda>e. Environment (ctxID e)) (map_range (allEnvironments r)) @
       map StreamProvider allStreamProviders"
  using assms by (simp_all add: Close_def Let_def allStreamProviders_def)

lemma index_ids_distinct:
  assumes ok: "index_ok r C (Some al)"
    and ids: "map ctxID (constructed r) = [0..<length (constructed r)]"
    and inj: "\<And>k k'. C k = C k' \<Longrightarrow> k = k'"
    and one: "\<And>e c c'. hasCredential e (C c) \<Longrightarrow> hasCredential e (C c') \<Longrightarrow> c = c'"
  shows "distinct (map (\<lambda>e. Environment (ctxID e)) (map snd al))"
proof -
  have d: "distinct al" using ok by (auto simp: index_ok_def dest: distinct_map [THEN iffD1])
  have "inj_on (\<lambda>p. Environment (ctxID (snd p))) (set al)"
  proof (rule inj_onI)
    fix p q assume p: "p \<in> set al" and q: "q \<in> set al"
      and eq: "Environment (ctxID (snd p)) = Environment (ctxID (snd q))"
    obtain k e where pe: "p = (k, e)" by (cases p)
    obtain k' e' where qe: "q = (k', e')" by (cases q)
    from ok p pe have 1: "hasCredential e (C k)" "live r e" by (auto dest: index_ok_SomeD)
    from ok q qe have 2: "hasCredential e' (C k')" "live r e'" by (auto dest: index_ok_SomeD)
    have "e = e'" using ctxID_inj [OF ids, of e e'] 1 2 eq pe qe by (simp add: live_def)
    then have "k = k'" using 1 2 one by blast
    then show "p = q" using \<open>e = e'\<close> pe qe by simp
  qed
  then have "distinct (map (\<lambda>p. Environment (ctxID (snd p))) al)"
    using d by (simp add: distinct_map)
  then show ?thesis by (simp add: comp_def)
qed

lemma hasCredential_SDKKey_unique:
  "hasCredential e (SDKKey c) \<Longrightarrow> hasCredential e (SDKKey c') \<Longrightarrow> c = c'"
  by (simp add: hasCredential_def)

lemma inv_close:
  assumes inv: "core_inv r"
  shows "core_inv (Close r)"
proof (cases "closed r")
  case True
  then show ?thesis using inv by (simp add: Close_closed)
next
  case False
  note f = Close_fields [OF False]
  from inv False obtain al where al: "allEnvironments r = Some al"
    unfolding core_inv_def by (meson index_ok_open)
  have ok: "index_ok r SDKKey (Some al)" using inv al by (simp add: core_inv_def)
  have ids: "map ctxID (constructed r) = [0..<length (constructed r)]"
    using inv by (simp add: core_inv_def)
  have envs_only: "\<And>x. x \<in> set (closeCalls r) \<Longrightarrow> \<exists>i. x = Environment i"
  proof -
    fix x assume "x \<in> set (closeCalls r)"
    with inv have "closeCall_ok r x" by (simp add: core_inv_def)
    with False show "\<exists>i. x = Environment i" by (cases x) (simp_all add: closeCall_ok_def)
  qed
  have d1: "distinct (map (\<lambda>e. Environment (ctxID e)) (map snd al))"
    by (rule index_ids_distinct [OF ok ids]) (auto dest: hasCredential_SDKKey_unique)
  have lv: "\<And>e. e \<in> set (map snd al) \<Longrightarrow> live r e"
    using ok by (auto dest: index_ok_SomeD)
  have disj: "\<And>e. e \<in> set (map snd al) \<Longrightarrow> Environment (ctxID e) \<notin> set (closeCalls r)"
    using lv by (simp add: live_def)
  have dc: "distinct (closeCalls (Close r))"
    using inv d1 disj envs_only
    by (auto simp: f al map_range_def core_inv_def allStreamProviders_def)
  have bound: "\<And>e. e \<in> set (map snd al) \<Longrightarrow> ctxID e < length (constructed r)"
    using lv ctxID_bound [OF ids] by (simp add: live_def)
  have ok': "\<forall>x \<in> set (closeCalls (Close r)). closeCall_ok (Close r) x"
    using inv bound
    by (auto simp: f al map_range_def core_inv_def closeCall_ok_def split: resource.splits)
  show ?thesis using dc ok' ids unfolding core_inv_def
    by (simp add: f(1-5) index_ok_def)
qed

lemma reachable_inv: "reachable r \<Longrightarrow> core_inv r"
  by (induction rule: reachable.induct) (simp_all add: inv_new inv_add inv_remove inv_close)


subsection \<open>Lookup after AddEnvironment\<close>


lemma GetEnvironment_live:
  assumes "reachable r" and "GetEnvironment r c = Some env"
  shows "live r env \<and> hasCredential env c"
proof -
  have inv: "core_inv r" using assms(1) by (rule reachable_inv)
  show ?thesis
  proof (cases c)
    case (SDKKey k)
    then show ?thesis using assms(2) inv index_ok_lookup [of r SDKKey "allEnvironments r" k env]
      by (simp add: GetEnvironment_def core_inv_def)
  next
    case (MobileKey k)
    then show ?thesis using assms(2) inv index_ok_lookup [of r MobileKey "envsByMobileKey r" k env]
      by (simp add: GetEnvironment_def core_inv_def)
  next
    case (EnvironmentID k)
    then show ?thesis using assms(2) inv index_ok_lookup [of r EnvironmentID "envsByEnvID r" k env]
      by (simp add: GetEnvironment_def core_inv_def)
  next
    case OtherCredential
    then show ?thesis using assms(2) by (simp add: GetEnvironment_def)
  qed
qed

lemma map_of_update_same: "map_of (AList.update k v al) k = Some v"
  by (simp add: update_conv')

lemma AddEnvironment_success_fields:
  assumes "allEnvironments r = Some al" and "envsByMobileKey r = Some am"
    and "envsByEnvID r = Some ae" and "\<not> closed r"
    and "ConfigureDataStoreErr x = None" and "NewEnvContextErr x = None"
  shows "fst (AddEnvironment n c x r) = Inr (NewEnvContext (length (constructed r)) n c x)"
    and "allEnvironments (snd (AddEnvironment n c x r)) =
           Some (AList.update (cfgSDKKey c) (NewEnvContext (length (constructed r)) n c x) al)"
    and "cfgMobileKey c \<noteq> [] \<Longrightarrow> envsByMobileKey (snd (AddEnvironment n c x r)) =
           Some (AList.update (cfgMobileKey c) (NewEnvContext (length (constructed r)) n c x) am)"
    and "cfgMobileKey c = [] \<Longrightarrow> envsByMobileKey (snd (AddEnvironment n c x r)) = Some am"
    and "cfgEnvID c \<noteq> [] \<Longrightarrow> envsByEnvID (snd (AddEnvironment n c x r)) =
           Some (AList.update (cfgEnvID c) (NewEnvContext (length (constructed r)) n c x) ae)"
    and "cfgEnvID c = [] \<Longrightarrow> envsByEnvID (snd (AddEnvironment n c x r)) = Some ae"
    and "closeCalls (snd (AddEnvironment n c x r)) = closeCalls r"
    and "constructed (snd (AddEnvironment n c x r)) =
           constructed r @ [NewEnvContext (length (constructed r)) n c x]"
    and "closed (snd (AddEnvironment n c x r)) = closed r"
    and "loggers (snd (AddEnvironment n c x r)) = loggers r"
  by (simp_all add: AddEnvironment_success [OF assms])

subsection \<open>Lookup under unique credentials\<close>

















lemma coreA_eq:
  "coreA = \<lparr> allEnvironments = Some [(''sdk-A'', NewEnvContext 0 ''A'' envConfigA succeeds)],
       envsByMobileKey = Some [(''mob-A'', NewEnvContext 0 ''A'' envConfigA succeeds)],
       envsByEnvID = Some [(''env-A'', NewEnvContext 0 ''A'' envConfigA succeeds)],
       closed = False, closeCalls = [], loggers = [],
       constructed = [NewEnvContext 0 ''A'' envConfigA succeeds] \<rparr>"
  by (simp add: coreA_def AddEnvironment_def emptyRelayCore_def map_assign_def envConfigA_def
      succeeds_def Let_def)

lemma reachable_coreA: "reachable coreA"
  unfolding coreA_def by (rule reach_add [OF reach_new])





subsection \<open>Credentials shared by two environments\<close>









subsection \<open>Adding a server key that is already present\<close>

lemma coreA_maps:
  "allEnvironments coreA = Some [(''sdk-A'', NewEnvContext 0 ''A'' envConfigA succeeds)]"
  "envsByMobileKey coreA = Some [(''mob-A'', NewEnvContext 0 ''A'' envConfigA succeeds)]"
  "envsByEnvID coreA = Some [(''env-A'', NewEnvContext 0 ''A'' envConfigA succeeds)]"
  "closed coreA = False" "closeCalls coreA = []" "loggers coreA = []"
  "constructed coreA = [NewEnvContext 0 ''A'' envConfigA succeeds]"
  by (simp_all add: coreA_eq)

text \<open>
  Claim C2 says that \<^verbatim>\<open>AddEnvironment\<close> rejects a server key that is already
  present and leaves the existing entries alone. The code has no such check. In the core
  that holds environment A under \<open>sdk-A\<close>, adding a second configuration with server key
  \<open>sdk-A\<close> succeeds; afterwards \<open>sdk-A\<close> resolves to the second context, and both
  contexts are live and have the server key \<open>sdk-A\<close>.
\<close>

theorem AddEnvironment_duplicate_counterexample:
  "GetEnvironment coreA (SDKKey ''sdk-A'') = Some (NewEnvContext 0 ''A'' envConfigA succeeds) \<and>
   fst (AddEnvironment ''B'' envConfigA' succeeds coreA) =
     Inr (NewEnvContext 1 ''B'' envConfigA' succeeds) \<and>
   GetEnvironment (snd (AddEnvironment ''B'' envConfigA' succeeds coreA)) (SDKKey ''sdk-A'') =
     Some (NewEnvContext 1 ''B'' envConfigA' succeeds) \<and>
   NewEnvContext 1 ''B'' envConfigA' succeeds \<noteq> NewEnvContext 0 ''A'' envConfigA succeeds \<and>
   live (snd (AddEnvironment ''B'' envConfigA' succeeds coreA))
     (NewEnvContext 0 ''A'' envConfigA succeeds) \<and>
   live (snd (AddEnvironment ''B'' envConfigA' succeeds coreA))
     (NewEnvContext 1 ''B'' envConfigA' succeeds) \<and>
   hasCredential (NewEnvContext 0 ''A'' envConfigA succeeds) (SDKKey ''sdk-A'') \<and>
   hasCredential (NewEnvContext 1 ''B'' envConfigA' succeeds) (SDKKey ''sdk-A'')"
  by (simp add: coreA_maps AddEnvironment_def map_assign_def Let_def GetEnvironment_def
      map_index_def live_def hasCredential_def NewEnvContext_def envConfigA_def envConfigA'_def
      succeeds_def)

lemma reachable_keys_distinct:
  assumes "reachable r"
  shows "distinct (map fst (GetAllEnvironments r))"
  using reachable_inv [OF assms]
  by (auto simp: core_inv_def index_ok_def GetAllEnvironments_def split: option.splits)

text \<open>
  Claim C2, amended. In a reachable core the server-key index has at most one entry per
  server key. When \<^verbatim>\<open>AddEnvironment\<close> is called with a server key that already
  resolves to a context \<open>old\<close>, and the data store configuration and the construction
  of the context succeed, the call is not rejected: it returns the newly constructed
  context, which differs from \<open>old\<close>; the server key now resolves to the new context;
  every other server key resolves as before; \<open>old\<close> stays live and no \<^verbatim>\<open>Close()\<close>
  is called.
\<close>

theorem AddEnvironment_existing_ServerKey:
  assumes "reachable r"
  shows "distinct (map fst (GetAllEnvironments r)) \<and>
    (GetEnvironment r (SDKKey (cfgSDKKey envConfig)) = Some old \<and>
     ConfigureDataStoreErr x = None \<and> NewEnvContextErr x = None \<longrightarrow>
       fst (AddEnvironment envName envConfig x r) =
         Inr (NewEnvContext (length (constructed r)) envName envConfig x) \<and>
       NewEnvContext (length (constructed r)) envName envConfig x \<noteq> old \<and>
       GetEnvironment (snd (AddEnvironment envName envConfig x r)) (SDKKey (cfgSDKKey envConfig)) =
         Some (NewEnvContext (length (constructed r)) envName envConfig x) \<and>
       (\<forall>k. k \<noteq> cfgSDKKey envConfig \<longrightarrow>
          GetEnvironment (snd (AddEnvironment envName envConfig x r)) (SDKKey k) =
          GetEnvironment r (SDKKey k)) \<and>
       live (snd (AddEnvironment envName envConfig x r)) old \<and>
       closeCalls (snd (AddEnvironment envName envConfig x r)) = closeCalls r)"
proof (intro conjI impI)
  show "distinct (map fst (GetAllEnvironments r))" using assms by (rule reachable_keys_distinct)
next
  assume h: "GetEnvironment r (SDKKey (cfgSDKKey envConfig)) = Some old \<and>
     ConfigureDataStoreErr x = None \<and> NewEnvContextErr x = None"
  let ?new = "NewEnvContext (length (constructed r)) envName envConfig x"
  let ?r' = "snd (AddEnvironment envName envConfig x r)"
  have inv: "core_inv r" using assms by (rule reachable_inv)
  from h have old: "map_index (allEnvironments r) (cfgSDKKey envConfig) = Some old"
    by (simp add: GetEnvironment_def)
  have lold: "live r old" using GetEnvironment_live [OF assms] h by blast
  have op: "\<not> closed r"
    using inv old by (auto simp: core_inv_def map_index_def dest: index_ok_closed)
  from inv op obtain al am ae where maps:
    "allEnvironments r = Some al" "envsByMobileKey r = Some am" "envsByEnvID r = Some ae"
    unfolding core_inv_def by (meson index_ok_open)
  from h have ok: "ConfigureDataStoreErr x = None" "NewEnvContextErr x = None" by simp_all
  note s = AddEnvironment_success_fields [OF maps op ok, where n = envName and c = envConfig]
  show "fst (AddEnvironment envName envConfig x r) = Inr ?new" by (rule s(1))
  have ids: "map ctxID (constructed r) = [0..<length (constructed r)]"
    using inv by (simp add: core_inv_def)
  have "ctxID old < length (constructed r)"
    using ctxID_bound [OF ids] lold by (simp add: live_def)
  moreover have "ctxID ?new = length (constructed r)" by (simp add: NewEnvContext_def)
  ultimately show "?new \<noteq> old" by auto
  show "GetEnvironment ?r' (SDKKey (cfgSDKKey envConfig)) = Some ?new"
    by (simp add: GetEnvironment_def map_index_def s(2) map_of_update_same)
  show "\<forall>k. k \<noteq> cfgSDKKey envConfig \<longrightarrow>
          GetEnvironment ?r' (SDKKey k) = GetEnvironment r (SDKKey k)"
    by (simp add: GetEnvironment_def map_index_def s(2) maps update_conv')
  show "live ?r' old" using lold by (simp add: live_def s)
  show "closeCalls ?r' = closeCalls r" by (rule s(7))
qed

theorem AddEnvironment_existing_ServerKey_witness:
  "distinct (map fst (GetAllEnvironments coreA)) \<and>
   fst (AddEnvironment ''B'' envConfigA' succeeds coreA) =
     Inr (NewEnvContext 1 ''B'' envConfigA' succeeds) \<and>
   GetEnvironment (snd (AddEnvironment ''B'' envConfigA' succeeds coreA)) (SDKKey ''sdk-A'') =
     Some (NewEnvContext 1 ''B'' envConfigA' succeeds) \<and>
   live (snd (AddEnvironment ''B'' envConfigA' succeeds coreA))
     (NewEnvContext 0 ''A'' envConfigA succeeds) \<and>
   closeCalls (snd (AddEnvironment ''B'' envConfigA' succeeds coreA)) = []"
proof -
  have pre: "GetEnvironment coreA (SDKKey (cfgSDKKey envConfigA')) =
      Some (NewEnvContext 0 ''A'' envConfigA succeeds) \<and>
     ConfigureDataStoreErr succeeds = None \<and> NewEnvContextErr succeeds = None"
    by (simp add: GetEnvironment_def map_index_def coreA_maps envConfigA'_def succeeds_def)
  have k: "cfgSDKKey envConfigA' = ''sdk-A''" by (simp add: envConfigA'_def)
  from AddEnvironment_existing_ServerKey [OF reachable_coreA, of envConfigA'
      "NewEnvContext 0 ''A'' envConfigA succeeds" succeeds "''B''"] pre
  show ?thesis by (simp add: coreA_maps k)
qed


subsection \<open>RemoveEnvironment\<close>







subsection \<open>Close\<close>

lemma closed_Close: "closed (Close r)"
  by (cases "closed r") (simp_all add: Close_closed Close_fields)

lemma closed_RemoveEnvironment: "closed (snd (RemoveEnvironment k r)) = closed r"
  by (cases "map_index (allEnvironments r) k")
     (simp_all add: RemoveEnvironment_absent RemoveEnvironment_present)

lemma closed_step: "closed r \<Longrightarrow> closed (step op r)"
  by (cases op)
     (simp_all add: AddEnvironment_closed Close_closed closed_RemoveEnvironment)

lemma closed_run: "closed r \<Longrightarrow> closed (run ops r)"
  unfolding run_def by (induction ops arbitrary: r) (simp_all add: closed_step)

text \<open>
  Claim C4. After \<^verbatim>\<open>Close\<close>, and after any further operations on the core, the core
  is closed and every \<^verbatim>\<open>AddEnvironment\<close> call returns \<open>errAlreadyClosed\<close> and
  leaves the core exactly as it was: no context is constructed, no index entry added.
\<close>

theorem AddEnvironment_after_Close:
  "closed (run ops (Close r)) \<and>
   AddEnvironment envName envConfig x (run ops (Close r)) =
     (Inl errAlreadyClosed, run ops (Close r))"
  using closed_run [OF closed_Close, of ops r] by (simp add: AddEnvironment_closed)

theorem AddEnvironment_after_Close_witness:
  "AddEnvironment ''B'' envConfigA' succeeds
     (run [OpRemoveEnvironment ''sdk-A'', OpAddEnvironment ''A'' envConfigA succeeds] (Close coreA)) =
     (Inl errAlreadyClosed, Close coreA)"
proof -
  have cl: "closed (Close coreA)" by (rule closed_Close)
  have n: "allEnvironments (Close coreA) = None"
    using Close_fields(2) [of coreA] by (simp add: coreA_maps)
  have "run [OpRemoveEnvironment ''sdk-A'', OpAddEnvironment ''A'' envConfigA succeeds] (Close coreA)
      = Close coreA"
    by (simp add: run_def RemoveEnvironment_def map_index_def n AddEnvironment_closed cl)
  then show ?thesis
    using AddEnvironment_after_Close [of "[OpRemoveEnvironment ''sdk-A'', OpAddEnvironment ''A'' envConfigA succeeds]"
        coreA "''B''" envConfigA' succeeds]
    by simp
qed






section \<open>Properties of the event relay\<close>

subsection \<open>The verbatim relay\<close>

text \<open>
  Claim C10. When \<open>SendEvents\<close> is false, \<^verbatim>\<open>enqueue\<close> returns without calling
  \<^verbatim>\<open>PublishRaw\<close> and without drawing from the generator, whatever the batch, the
  sampling interval and the generator state are: the process state is unchanged.
\<close>

theorem enqueue_SendEvents_off:
  "\<not> SendEvents (relayConfig er) \<Longrightarrow>
     enqueue lib er evts w = (w, None) \<and>
     publishCalls (fst (enqueue lib er evts w)) = publishCalls w \<and>
     rGen (fst (enqueue lib er evts w)) = rGen w"
  by (simp add: enqueue_def)

theorem enqueue_SendEvents_off_witness:
  "enqueue counterLib (newEventVerbatimRelay ''sdk-A'' (cfgOff\<lparr>SamplingInterval := 1\<rparr>) ''/bulk'') [''{}''] process0
     = (process0, None)"
  using enqueue_SendEvents_off [of "newEventVerbatimRelay ''sdk-A'' (cfgOff\<lparr>SamplingInterval := 1\<rparr>) ''/bulk''"
      counterLib "[''{}'']" process0]
  by (simp add: newEventVerbatimRelay_def cfgOff_def)

text \<open>
  Claim C9 says that a batch offered to the verbatim relay is published iff the draw is
  0 when the sampling interval is positive, and always when it is not. With
  \<open>SendEvents\<close> off neither holds: with interval 0 the batch is not published, and with
  interval 1 the draw is 0 and the batch is not published either.
\<close>

theorem enqueue_sampling_counterexample:
  "\<not> 0 < sint (SamplingInterval cfgOff) \<and>
   publishCalls (fst (enqueue counterLib (newEventVerbatimRelay ''sdk-A'' cfgOff ''/bulk'') [''{}''] process0)) = [] \<and>
   0 < sint (SamplingInterval (cfgOff\<lparr>SamplingInterval := 1\<rparr>)) \<and>
   fst (Int31n counterLib (rGen process0) 1) = 0 \<and>
   publishCalls (fst (enqueue counterLib
      (newEventVerbatimRelay ''sdk-A'' (cfgOff\<lparr>SamplingInterval := 1\<rparr>) ''/bulk'') [''{}''] process0)) = []"
  by (simp add: enqueue_def newEventVerbatimRelay_def cfgOff_def process0_def counterLib_def)

text \<open>
  Claim C9, amended. When \<open>SendEvents\<close> is true: with a sampling interval \<open>N > 0\<close>
  the relay draws \<^verbatim>\<open>Int31n(N)\<close> once from the process-wide generator, and the batch is
  handed to \<^verbatim>\<open>PublishRaw\<close> iff the draw is 0; with \<open>N \<le> 0\<close> the generator is not
  touched and every batch is handed to \<^verbatim>\<open>PublishRaw\<close>.
\<close>

theorem enqueue_sampling:
  assumes "SendEvents (relayConfig er)"
  shows "(if 0 < sint (SamplingInterval (relayConfig er))
      then rGen (fst (enqueue lib er evts w)) =
             snd (Int31n lib (rGen w) (SamplingInterval (relayConfig er))) \<and>
           publishCalls (fst (enqueue lib er evts w)) =
             (if fst (Int31n lib (rGen w) (SamplingInterval (relayConfig er))) = 0
              then publishCalls w @ [(publisher er, evts)] else publishCalls w)
      else rGen (fst (enqueue lib er evts w)) = rGen w \<and>
           publishCalls (fst (enqueue lib er evts w)) = publishCalls w @ [(publisher er, evts)]) \<and>
    (0 < sint (SamplingInterval (relayConfig er)) \<longrightarrow>
       (publishCalls (fst (enqueue lib er evts w)) = publishCalls w @ [(publisher er, evts)]) =
       (fst (Int31n lib (rGen w) (SamplingInterval (relayConfig er))) = 0))"
  using assms by (simp add: enqueue_def PublishRaw_def split: prod.splits)

theorem enqueue_sampling_witness:
  "publishCalls (fst (enqueue counterLib (newEventVerbatimRelay ''sdk-A'' cfgOn ''/bulk'') [''{}''] process0)) =
     [(publisher (newEventVerbatimRelay ''sdk-A'' cfgOn ''/bulk''), [''{}''])] \<and>
   publishCalls (fst (enqueue counterLib (newEventVerbatimRelay ''sdk-A'' cfgOn ''/bulk'') [''{}'']
     (process0\<lparr>rGen := 1\<rparr>))) = [] \<and>
   rGen (fst (enqueue counterLib (newEventVerbatimRelay ''sdk-A'' cfgOn ''/bulk'') [''{}'']
     (process0\<lparr>rGen := 1\<rparr>))) = 2 \<and>
   publishCalls (fst (enqueue counterLib
     (newEventVerbatimRelay ''sdk-A'' (cfgOn\<lparr>SamplingInterval := 0\<rparr>) ''/bulk'') [''{}''] process0)) =
     [(publisher (newEventVerbatimRelay ''sdk-A'' (cfgOn\<lparr>SamplingInterval := 0\<rparr>) ''/bulk''), [''{}''])]"
proof -
  have on: "SendEvents (relayConfig (newEventVerbatimRelay ''sdk-A'' cfgOn ''/bulk''))"
    "SendEvents (relayConfig (newEventVerbatimRelay ''sdk-A'' (cfgOn\<lparr>SamplingInterval := 0\<rparr>) ''/bulk''))"
    by (simp_all add: newEventVerbatimRelay_def cfgOn_def)
  have n: "SamplingInterval (relayConfig (newEventVerbatimRelay ''sdk-A'' cfgOn ''/bulk'')) = 3"
    "SamplingInterval (relayConfig (newEventVerbatimRelay ''sdk-A'' (cfgOn\<lparr>SamplingInterval := 0\<rparr>) ''/bulk'')) = 0"
    by (simp_all add: newEventVerbatimRelay_def cfgOn_def)
  have d: "Int31n counterLib 0 3 = (0, 1)" "Int31n counterLib (Suc 0) 3 = (1, 2)"
    by (simp_all add: counterLib_def)
  from enqueue_sampling [OF on(1), of counterLib "[''{}'']" process0]
    enqueue_sampling [OF on(1), of counterLib "[''{}'']" "process0\<lparr>rGen := 1\<rparr>"]
    enqueue_sampling [OF on(2), of counterLib "[''{}'']" process0]
  show ?thesis by (simp add: n d process0_def)
qed

subsection \<open>The handler\<close>

lemma dispatchEvents_response:
  "fst (dispatchEvents req w) =
     (if reqBodyErr req \<noteq> None
      then \<lparr> statusCode = 400, written = ErrorJsonMsg ''unable to read request body'' \<rparr>
      else if reqBody req = []
      then \<lparr> statusCode = 400, written = ErrorJsonMsg ''body may not be empty'' \<rparr>
      else \<lparr> statusCode = 202, written = [] \<rparr>)"
  by (simp add: dispatchEvents_def StatusBadRequest_def StatusAccepted_def split: option.splits)

lemma dispatchEvents_started:
  "snd (snd (dispatchEvents req w)) = (reqBodyErr req = None \<and> reqBody req \<noteq> [])"
  by (simp add: dispatchEvents_def split: option.splits)

lemma serve_response: "fst (serve lib req dw) = fst (dispatchEvents req (snd dw))"
  by (simp add: serve_def split: prod.splits)

lemma enqueue_errorLog: "errorLog (fst (enqueue lib er evts w)) = errorLog w"
  by (simp add: enqueue_def PublishRaw_def split: prod.splits)

lemma summarizing_enqueue_errorLog:
  "errorLog (fst (summarizing_enqueue lib sr evts v w)) = errorLog w"
  by (simp add: summarizing_enqueue_def)

lemma recover_errorLog:
  "errorLog (recover wp) =
     errorLog (fst wp) @ (case snd wp of None \<Rightarrow> [] | Some v \<Rightarrow> [UnexpectedPanic v])"
  by (simp add: recover_def split: option.splits)

text \<open>The call the goroutine makes on a relay, once the body has been parsed.\<close>

lemma worker_unmarshal_error:
  "Unmarshal lib (reqBody req) = Inl err \<Longrightarrow>
   worker lib req dw = (fst dw, (snd dw)\<lparr>errorLog := errorLog (snd dw) @ [ErrorUnmarshaling err]\<rparr>)"
  by (simp add: worker_def)

lemma worker_verbatim:
  assumes "Unmarshal lib (reqBody req) = Inr evts"
    and "payloadVersionOf req \<ge> 3"
  shows "worker lib req dw =
     (snd (getVerbatimRelay (fst dw)),
      recover (enqueue lib (fst (getVerbatimRelay (fst dw))) evts
        ((snd dw)\<lparr>debugLog := debugLog (snd dw) @
           [ReceivedEvents (length evts) (payloadVersionOf req) (remotePath (fst dw))]\<rparr>)))"
  using assms by (simp add: worker_def SummaryEventsSchemaVersion_def Let_def)

lemma worker_summarizing:
  assumes "Unmarshal lib (reqBody req) = Inr evts"
    and "payloadVersionOf req < 3"
  shows "worker lib req dw =
     (snd (getSummarizingRelay (fst dw)),
      recover (summarizing_enqueue lib (fst (getSummarizingRelay (fst dw))) evts (payloadVersionOf req)
        ((snd dw)\<lparr>debugLog := debugLog (snd dw) @
           [ReceivedEvents (length evts) (payloadVersionOf req) (remotePath (fst dw))]\<rparr>)))"
  using assms by (simp add: worker_def SummaryEventsSchemaVersion_def Let_def)

lemma worker_errorLog:
  "errorLog (snd (worker lib req dw)) =
     errorLog (snd dw) @
     (case Unmarshal lib (reqBody req) of
        Inl err \<Rightarrow> [ErrorUnmarshaling err]
      | Inr evts \<Rightarrow>
          (case relayPanic lib req dw evts of None \<Rightarrow> [] | Some v \<Rightarrow> [UnexpectedPanic v]))"
proof (cases "Unmarshal lib (reqBody req)")
  case (Inl err)
  then show ?thesis by (simp add: worker_unmarshal_error)
next
  case (Inr evts)
  show ?thesis
  proof (cases "payloadVersionOf req \<ge> 3")
    case True
    then show ?thesis
      by (simp add: Inr worker_verbatim [OF Inr True] recover_errorLog enqueue_errorLog
          relayPanic_def)
  next
    case False
    then have lt: "payloadVersionOf req < 3" by simp
    show ?thesis
      by (simp add: Inr worker_summarizing [OF Inr lt] recover_errorLog
          summarizing_enqueue_errorLog relayPanic_def False)
  qed
qed

text \<open>
  Claim C7. The response of a request is the response \<^verbatim>\<open>dispatchEvents\<close> writes before
  it starts its goroutine, and it depends on the body alone: 400 with the JSON error
  envelope for a read error and for an empty body (with the message "body may not be
  empty"), 202 for every other body. A goroutine is started exactly for the accepted
  requests. Whatever the library does there, the response is the same; a body that does
  not parse and a panic of the relay call are each logged at error level, and nothing
  else is.
\<close>

theorem dispatchEvents_response_from_body:
  "fst (serve lib req dw) =
     (if reqBodyErr req \<noteq> None
      then \<lparr> statusCode = 400, written = ErrorJsonMsg ''unable to read request body'' \<rparr>
      else if reqBody req = []
      then \<lparr> statusCode = 400, written = ErrorJsonMsg ''body may not be empty'' \<rparr>
      else \<lparr> statusCode = 202, written = [] \<rparr>) \<and>
   fst (dispatchEvents req (snd dw)) = fst (serve lib req dw) \<and>
   snd (snd (dispatchEvents req (snd dw))) = (reqBodyErr req = None \<and> reqBody req \<noteq> []) \<and>
   errorLog (snd (worker lib req dw)) =
     errorLog (snd dw) @
     (case Unmarshal lib (reqBody req) of
        Inl err \<Rightarrow> [ErrorUnmarshaling err]
      | Inr evts \<Rightarrow>
          (case relayPanic lib req dw evts of None \<Rightarrow> [] | Some v \<Rightarrow> [UnexpectedPanic v]))"
  by (simp add: serve_response dispatchEvents_response dispatchEvents_started worker_errorLog)

subsection \<open>Routing by schema version\<close>

lemma canonical_EventSchemaHeader:
  "CanonicalMIMEHeaderKey EventSchemaHeader = ''X-Launchdarkly-Event-Schema''"
  by code_simp

lemma Atoi_huge: "Atoi ''9223372036854775808'' = (9223372036854775807, Some ErrRange)"
  by (simp add: Atoi_def ParseInt_def ParseUint_def digit_def maxUint64_def Let_def)

lemma payloadVersionOf_huge: "payloadVersionOf requestHuge = 9223372036854775807"
  by (simp add: payloadVersionOf_def requestHuge_def Header_Get_def canonical_EventSchemaHeader
      Atoi_huge)

text \<open>
  Claim C8 says that a schema version header that cannot be parsed counts as version 1,
  so that the batch is summarized. \<^verbatim>\<open>strconv.Atoi\<close> fails on \<open>9223372036854775808\<close>
  with a range error, but returns the largest \<^verbatim>\<open>int\<close> with it; the handler drops the
  error and keeps the value, so the batch is accepted, handed to the verbatim relay and
  published as it is, and nothing reaches the summarizing relay.
\<close>

theorem out_of_range_schema_version_is_relayed_verbatim:
  "Atoi ''9223372036854775808'' = (9223372036854775807, Some ErrRange) \<and>
   payloadVersionOf requestHuge = 9223372036854775807 \<and>
   fst (serve counterLib requestHuge (newEventEndpointDispatcher ''sdk-A'' cfgAll ''/bulk'', process0)) =
     \<lparr> statusCode = 202, written = [] \<rparr> \<and>
   publishCalls (snd (snd (serve counterLib requestHuge
       (newEventEndpointDispatcher ''sdk-A'' cfgAll ''/bulk'', process0)))) =
     [(publisher (newEventVerbatimRelay ''sdk-A'' cfgAll ''/bulk''), [''{}''])] \<and>
   summarizeCalls (snd (snd (serve counterLib requestHuge
       (newEventEndpointDispatcher ''sdk-A'' cfgAll ''/bulk'', process0)))) = []"
proof -
  have u: "Unmarshal counterLib (reqBody requestHuge) = Inr [''{}'']"
    by (simp add: counterLib_def requestHuge_def)
  have v: "payloadVersionOf requestHuge \<ge> 3" by (simp add: payloadVersionOf_huge)
  have g: "getVerbatimRelay (newEventEndpointDispatcher ''sdk-A'' cfgAll ''/bulk'') =
      (newEventVerbatimRelay ''sdk-A'' cfgAll ''/bulk'',
       (newEventEndpointDispatcher ''sdk-A'' cfgAll ''/bulk'')
         \<lparr>verbatimRelay := Some (newEventVerbatimRelay ''sdk-A'' cfgAll ''/bulk'')\<rparr>)"
    by (simp add: getVerbatimRelay_def newEventEndpointDispatcher_def)
  have c: "SendEvents (relayConfig (newEventVerbatimRelay ''sdk-A'' cfgAll ''/bulk''))"
    "SamplingInterval (relayConfig (newEventVerbatimRelay ''sdk-A'' cfgAll ''/bulk'')) = 0"
    by (simp_all add: newEventVerbatimRelay_def cfgAll_def)
  have s: "serve counterLib requestHuge (newEventEndpointDispatcher ''sdk-A'' cfgAll ''/bulk'', process0)
     = (\<lparr> statusCode = 202, written = [] \<rparr>,
        worker counterLib requestHuge (newEventEndpointDispatcher ''sdk-A'' cfgAll ''/bulk'', process0))"
    by (simp add: serve_def dispatchEvents_def requestHuge_def StatusAccepted_def)
  have p: "PublishRawPanics counterLib = (\<lambda>p evts. None)"
    "publishCalls process0 = []" "summarizeCalls process0 = []"
    by (simp_all add: counterLib_def process0_def)
  show ?thesis
    by (simp add: Atoi_huge payloadVersionOf_huge s worker_verbatim [OF u v] g enqueue_def c
        PublishRaw_def recover_def p)
qed

text \<open>What does hold of the routing: a parsed batch goes unmodified to the verbatim
  relay when the payload version is at least 3 and to the summarizing relay, together
  with the payload version, otherwise; a header that is absent or is not a decimal
  number gives payload version 1.\<close>

lemma worker_routes_by_version:
  assumes "Unmarshal lib (reqBody req) = Inr evts"
  shows "if payloadVersionOf req \<ge> SummaryEventsSchemaVersion
         then snd (worker lib req dw) =
                recover (enqueue lib (fst (getVerbatimRelay (fst dw))) evts
                  ((snd dw)\<lparr>debugLog := debugLog (snd dw) @
                     [ReceivedEvents (length evts) (payloadVersionOf req) (remotePath (fst dw))]\<rparr>)) \<and>
              summarizeCalls (snd (worker lib req dw)) = summarizeCalls (snd dw)
         else summarizeCalls (snd (worker lib req dw)) =
                summarizeCalls (snd dw) @
                  [(fst (getSummarizingRelay (fst dw)), evts, payloadVersionOf req)] \<and>
              publishCalls (snd (worker lib req dw)) = publishCalls (snd dw)"
proof (cases "payloadVersionOf req \<ge> 3")
  case True
  then show ?thesis
    by (simp add: worker_verbatim [OF assms True] SummaryEventsSchemaVersion_def recover_def
        enqueue_def PublishRaw_def split: option.splits prod.splits)
next
  case False
  then have lt: "payloadVersionOf req < 3" by simp
  show ?thesis
    by (simp add: worker_summarizing [OF assms lt] SummaryEventsSchemaVersion_def recover_def
        summarizing_enqueue_def False split: option.splits)
qed

lemma Atoi_syntax_zero: "snd (Atoi s) = Some ErrSyntax \<Longrightarrow> fst (Atoi s) = 0"
  by (auto simp: Atoi_def ParseInt_def Let_def split: list.splits prod.splits if_splits)

lemma payloadVersionOf_syntax_error:
  "snd (Atoi (Header_Get (reqHeader req) EventSchemaHeader)) = Some ErrSyntax \<Longrightarrow>
   payloadVersionOf req = 1"
  by (simp add: payloadVersionOf_def Atoi_syntax_zero)

lemma payloadVersionOf_absent:
  "map_of (reqHeader req) (CanonicalMIMEHeaderKey EventSchemaHeader) = None \<Longrightarrow>
   payloadVersionOf req = 1"
  by (simp add: payloadVersionOf_def Header_Get_def Atoi_def ParseInt_def)

section \<open>Properties of WaitForAllClients\<close>

lemma collect_count:
  "collect n k failed ch =
     (if length ch < n - k then None
      else Some (failed \<or> (\<exists>c \<in> set (take (n - k) ch). ctxInitError c \<noteq> None)))"
proof (induction ch arbitrary: k failed)
  case Nil
  then show ?case by auto
next
  case (Cons c ch)
  show ?case
  proof (cases "k < n")
    case True
    then have eq: "n - k = Suc (n - Suc k)" by simp
    show ?thesis using True by (auto simp: Cons eq)
  next
    case False
    then show ?thesis by simp
  qed
qed

lemma WaitForAllClients_counts:
  "WaitForAllClients r timeout ch =
     (if length ch < map_len (allEnvironments r) then []
      else [if \<exists>c \<in> set (take (map_len (allEnvironments r)) ch). ctxInitError c \<noteq> None
            then Some errSomeEnvironmentFailed else None]) @
     (if timeout > 0 then [Some errInitializationTimeout] else [])"
  by (simp add: WaitForAllClients_def collect_count)

lemma reachable_index_values:
  assumes "reachable r"
  shows "distinct (map_range (allEnvironments r))"
    and "map_len (allEnvironments r) = card (set (map_range (allEnvironments r)))"
proof -
  have inv: "core_inv r" using assms by (rule reachable_inv)
  show d: "distinct (map_range (allEnvironments r))"
  proof (cases "allEnvironments r")
    case None
    then show ?thesis by (simp add: map_range_def)
  next
    case (Some al)
    have ok: "index_ok r SDKKey (Some al)" using inv Some by (simp add: core_inv_def)
    have ids: "map ctxID (constructed r) = [0..<length (constructed r)]"
      using inv by (simp add: core_inv_def)
    have "distinct (map (\<lambda>e. Environment (ctxID e)) (map snd al))"
      by (rule index_ids_distinct [OF ok ids]) (auto dest: hasCredential_SDKKey_unique)
    then have "distinct (map snd al)" by (metis distinct_map)
    then show ?thesis by (simp add: map_range_def Some)
  qed
  have "length (map_range (allEnvironments r)) = map_len (allEnvironments r)"
    by (simp add: map_range_def map_len_def split: option.splits)
  then show "map_len (allEnvironments r) = card (set (map_range (allEnvironments r)))"
    using d by (simp add: distinct_card)
qed

text \<open>
  What the counting amounts to when the contexts that the init channel delivers are
  distinct environments of the index (as they are when nothing was added or removed
  since \<^verbatim>\<open>NewRelayCore\<close> and no two environments share a server key): if every
  environment of the index has reported, the call can return \<open>initResult\<close>, which is
  \<open>errSomeEnvironmentFailed\<close> if one of them has a non-nil init error and nil
  otherwise; with a positive timeout it can return \<open>errInitializationTimeout\<close>; and
  it can return nothing else.
\<close>

lemma WaitForAllClients_results:
  assumes "reachable r" and "distinct ch"
    and "set ch \<subseteq> set (map_range (allEnvironments r))"
  shows "(\<forall>res \<in> set (WaitForAllClients r timeout ch).
            (res = Some errInitializationTimeout \<and> timeout > 0) \<or>
            (set ch = set (map_range (allEnvironments r)) \<and> res = initResult r)) \<and>
         WaitForAllClients r timeout ch =
           (if set ch = set (map_range (allEnvironments r)) then [initResult r] else []) @
           (if timeout > 0 then [Some errInitializationTimeout] else [])"
proof -
  let ?S = "set (map_range (allEnvironments r))"
  let ?n = "map_len (allEnvironments r)"
  have n: "?n = card ?S" using assms(1) by (rule reachable_index_values)
  have len: "length ch = card (set ch)" using assms(2) by (simp add: distinct_card)
  have le: "card (set ch) \<le> card ?S" using assms(3) by (simp add: card_mono)
  have all: "(length ch < ?n) = (set ch \<noteq> ?S)"
  proof
    assume "length ch < ?n"
    then show "set ch \<noteq> ?S" using n len by auto
  next
    assume "set ch \<noteq> ?S"
    then have "set ch \<subset> ?S" using assms(3) by blast
    then have "card (set ch) < card ?S" by (simp add: psubset_card_mono)
    then show "length ch < ?n" using n len by simp
  qed
  have tk: "set ch = ?S \<Longrightarrow> take ?n ch = ch" using n len by simp
  have eq: "WaitForAllClients r timeout ch =
           (if set ch = ?S then [initResult r] else []) @
           (if timeout > 0 then [Some errInitializationTimeout] else [])"
  proof (cases "set ch = ?S")
    case True
    then have "\<not> length ch < ?n" using all by simp
    then show ?thesis using True tk [OF True]
      by (simp add: WaitForAllClients_counts initResult_def)
  next
    case False
    then have "length ch < ?n" using all by simp
    then show ?thesis using False by (simp add: WaitForAllClients_counts)
  qed
  show ?thesis unfolding eq by auto
qed

lemma coreB_step1:
  "snd (AddEnvironment ''A'' envConfigA failsInit emptyRelayCore) =
     \<lparr> allEnvironments = Some [(''sdk-A'', NewEnvContext 0 ''A'' envConfigA failsInit)],
       envsByMobileKey = Some [(''mob-A'', NewEnvContext 0 ''A'' envConfigA failsInit)],
       envsByEnvID = Some [(''env-A'', NewEnvContext 0 ''A'' envConfigA failsInit)],
       closed = False, closeCalls = [], loggers = [],
       constructed = [NewEnvContext 0 ''A'' envConfigA failsInit] \<rparr>"
proof -
  have "AddEnvironment ''A'' envConfigA failsInit emptyRelayCore =
      (Inr (NewEnvContext 0 ''A'' envConfigA failsInit),
       \<lparr> allEnvironments = Some [(''sdk-A'', NewEnvContext 0 ''A'' envConfigA failsInit)],
       envsByMobileKey = Some [(''mob-A'', NewEnvContext 0 ''A'' envConfigA failsInit)],
       envsByEnvID = Some [(''env-A'', NewEnvContext 0 ''A'' envConfigA failsInit)],
       closed = False, closeCalls = [], loggers = [],
       constructed = [NewEnvContext 0 ''A'' envConfigA failsInit] \<rparr>)"
    using AddEnvironment_success [of emptyRelayCore "[]" "[]" "[]" failsInit "''A''" envConfigA]
    by (simp add: emptyRelayCore_def failsInit_def envConfigA_def)
  then show ?thesis by simp
qed

lemma coreB_step2:
  "snd (AddEnvironment ''B'' envConfigB succeeds
     (snd (AddEnvironment ''A'' envConfigA failsInit emptyRelayCore))) =
     \<lparr> allEnvironments = Some [(''sdk-A'', NewEnvContext 0 ''A'' envConfigA failsInit),
                                (''sdk-B'', NewEnvContext 1 ''B'' envConfigB succeeds)],
       envsByMobileKey = Some [(''mob-A'', NewEnvContext 0 ''A'' envConfigA failsInit)],
       envsByEnvID = Some [(''env-A'', NewEnvContext 0 ''A'' envConfigA failsInit)],
       closed = False, closeCalls = [], loggers = [],
       constructed = [NewEnvContext 0 ''A'' envConfigA failsInit,
                      NewEnvContext 1 ''B'' envConfigB succeeds] \<rparr>"
  unfolding coreB_step1
  using AddEnvironment_success [of "\<lparr> allEnvironments = Some [(''sdk-A'', NewEnvContext 0 ''A'' envConfigA failsInit)],
       envsByMobileKey = Some [(''mob-A'', NewEnvContext 0 ''A'' envConfigA failsInit)],
       envsByEnvID = Some [(''env-A'', NewEnvContext 0 ''A'' envConfigA failsInit)],
       closed = False, closeCalls = [], loggers = [],
       constructed = [NewEnvContext 0 ''A'' envConfigA failsInit] \<rparr>"
      "[(''sdk-A'', NewEnvContext 0 ''A'' envConfigA failsInit)]"
      "[(''mob-A'', NewEnvContext 0 ''A'' envConfigA failsInit)]"
      "[(''env-A'', NewEnvContext 0 ''A'' envConfigA failsInit)]" succeeds "''B''" envConfigB]
  by (simp add: succeeds_def envConfigB_def)

lemma coreB_eq:
  "coreB =
     \<lparr> allEnvironments = Some [(''sdk-B'', NewEnvContext 1 ''B'' envConfigB succeeds)],
       envsByMobileKey = Some [],
       envsByEnvID = Some [],
       closed = False, closeCalls = [Environment 0], loggers = [],
       constructed = [NewEnvContext 0 ''A'' envConfigA failsInit,
                      NewEnvContext 1 ''B'' envConfigB succeeds] \<rparr>"
proof -
  have c: "ctxCredentials (NewEnvContext 0 ''A'' envConfigA failsInit) =
      \<lparr> credSDKKey = ''sdk-A'', credMobileKey = ''mob-A'', credEnvironmentID = ''env-A'' \<rparr>"
      "ctxID (NewEnvContext 0 ''A'' envConfigA failsInit) = 0"
      "ctxCloseErr (NewEnvContext 0 ''A'' envConfigA failsInit) = None"
    by (simp_all add: NewEnvContext_def envConfigA_def failsInit_def)
  show ?thesis
    unfolding coreB_def run_def
    by (simp add: coreB_step2 RemoveEnvironment_def map_index_def map_delete_def closeEnv_def c)
qed

lemma coreB_fields:
  "allEnvironments coreB = Some [(''sdk-B'', NewEnvContext 1 ''B'' envConfigB succeeds)]"
  "closeCalls coreB = [Environment 0]"
  by (simp_all add: coreB_eq)

lemma reachable_run: "reachable r \<Longrightarrow> reachable (run ops r)"
  unfolding run_def
proof (induction ops arbitrary: r)
  case Nil
  then show ?case by simp
next
  case (Cons op ops)
  have "reachable (step op r)"
    using Cons.prems by (cases op) (simp_all add: reach_add reach_remove reach_close)
  then show ?case using Cons.IH by simp
qed

text \<open>
  Claim C6 says that the call blocks until every environment present at the time of the
  call has reported, and its comment in the source says the same of all environments of
  the initial configuration. The code counts reports instead. Environments A and B are
  added, A reports its failed initialisation and is removed; in the core that is left,
  with B alone in the index, the report of A ends the wait: the call returns
  \<open>errSomeEnvironmentFailed\<close> although B has not reported and has no init error.
\<close>

theorem WaitForAllClients_returns_before_all_reported:
  "GetAllEnvironments coreB = [(''sdk-B'', NewEnvContext 1 ''B'' envConfigB succeeds)] \<and>
   ctxInitError (NewEnvContext 1 ''B'' envConfigB succeeds) = None \<and>
   NewEnvContext 1 ''B'' envConfigB succeeds \<noteq> NewEnvContext 0 ''A'' envConfigA failsInit \<and>
   WaitForAllClients coreB 0 [NewEnvContext 0 ''A'' envConfigA failsInit] =
     [Some errSomeEnvironmentFailed]"
  by (simp add: GetAllEnvironments_def coreB_fields WaitForAllClients_def map_len_def
      NewEnvContext_def failsInit_def succeeds_def)

lemma coreA_values:
  "set (map_range (allEnvironments coreA)) = {NewEnvContext 0 ''A'' envConfigA succeeds}"
  by (simp add: coreA_maps map_range_def)

lemma coreA_initResult: "initResult coreA = None"
  by (simp add: initResult_def coreA_values NewEnvContext_def succeeds_def)

text \<open>Scenario 5 of the specification among them: an environment that never reports
  and a timeout of 100ms.\<close>

lemma WaitForAllClients_results_examples:
  "WaitForAllClients coreA 0 [NewEnvContext 0 ''A'' envConfigA succeeds] = [None] \<and>
   WaitForAllClients coreA 100000000 [] = [Some errInitializationTimeout] \<and>
   WaitForAllClients coreA 0 [] = []"
proof -
  have 1: "distinct [NewEnvContext 0 ''A'' envConfigA succeeds]"
    "set [NewEnvContext 0 ''A'' envConfigA succeeds] \<subseteq> set (map_range (allEnvironments coreA))"
    by (simp_all add: coreA_values)
  have 2: "distinct ([] :: EnvContext list)"
    "set ([] :: EnvContext list) \<subseteq> set (map_range (allEnvironments coreA))"
    by simp_all
  have a: "WaitForAllClients coreA 0 [NewEnvContext 0 ''A'' envConfigA succeeds] = [None]"
    using WaitForAllClients_results [OF reachable_coreA 1, of 0, THEN conjunct2]
    by (simp add: coreA_values coreA_initResult)
  have b: "WaitForAllClients coreA 100000000 [] = [Some errInitializationTimeout]"
    using WaitForAllClients_results [OF reachable_coreA 2, of 100000000, THEN conjunct2]
    by (simp add: coreA_values)
  have c: "WaitForAllClients coreA 0 [] = []"
    using WaitForAllClients_results [OF reachable_coreA 2, of 0, THEN conjunct2]
    by (simp add: coreA_values)
  from a b c show ?thesis by simp
qed

lemma payloadVersionOf_requestV3: "payloadVersionOf (requestV3 body err) = 3"
  by (simp add: payloadVersionOf_def requestV3_def Header_Get_def canonical_EventSchemaHeader
      Atoi_def ParseInt_def ParseUint_def digit_def maxUint64_def Let_def)

theorem dispatchEvents_response_from_body_witness:
  \<open>fst (serve counterLib (requestV3 [] None)
      (newEventEndpointDispatcher ''sdk-A'' cfgAll ''/bulk'', process0)) =
     \<lparr> statusCode = 400, written = ''{"message":"body may not be empty"}'' \<rparr> \<and>
   fst (serve counterLib (requestV3 ''[{'' (Some ''unexpected EOF''))
      (newEventEndpointDispatcher ''sdk-A'' cfgAll ''/bulk'', process0)) =
     \<lparr> statusCode = 400, written = ''{"message":"unable to read request body"}'' \<rparr> \<and>
   fst (serve counterLib (requestV3 ''not json'' None)
      (newEventEndpointDispatcher ''sdk-A'' cfgAll ''/bulk'', process0)) =
     \<lparr> statusCode = 202, written = [] \<rparr> \<and>
   errorLog (snd (worker counterLib (requestV3 ''not json'' None)
      (newEventEndpointDispatcher ''sdk-A'' cfgAll ''/bulk'', process0))) =
     [ErrorUnmarshaling ''invalid character''] \<and>
   fst (serve panicLib (requestV3 ''[{}]'' None)
      (newEventEndpointDispatcher ''sdk-A'' cfgAll ''/bulk'', process0)) =
     \<lparr> statusCode = 202, written = [] \<rparr> \<and>
   errorLog (snd (worker panicLib (requestV3 ''[{}]'' None)
      (newEventEndpointDispatcher ''sdk-A'' cfgAll ''/bulk'', process0))) =
     [UnexpectedPanic ''nil pointer dereference'']\<close>
proof -
  let ?dw = "(newEventEndpointDispatcher ''sdk-A'' cfgAll ''/bulk'', process0)"
  have r: "reqBody (requestV3 body err) = body" "reqBodyErr (requestV3 body err) = err" for body err
    by (simp_all add: requestV3_def)
  have u: "Unmarshal counterLib ''not json'' = Inl ''invalid character''"
    "Unmarshal panicLib ''[{}]'' = Inr [''{}'']"
    by (simp_all add: counterLib_def panicLib_def)
  have e: "errorLog process0 = []" by (simp add: process0_def)
  have g: "fst (getVerbatimRelay (newEventEndpointDispatcher ''sdk-A'' cfgAll ''/bulk'')) =
      newEventVerbatimRelay ''sdk-A'' cfgAll ''/bulk''"
    by (simp add: getVerbatimRelay_def newEventEndpointDispatcher_def)
  have c: "SendEvents (relayConfig (newEventVerbatimRelay ''sdk-A'' cfgAll ''/bulk''))"
    "SamplingInterval (relayConfig (newEventVerbatimRelay ''sdk-A'' cfgAll ''/bulk'')) = 0"
    by (simp_all add: newEventVerbatimRelay_def cfgAll_def)
  have p: "relayPanic panicLib (requestV3 ''[{}]'' None) ?dw [''{}''] =
      Some ''nil pointer dereference''"
    by (simp add: relayPanic_def payloadVersionOf_requestV3 g enqueue_def c PublishRaw_def
        panicLib_def)
  from dispatchEvents_response_from_body [of counterLib "requestV3 [] None" ?dw]
  have 1: \<open>fst (serve counterLib (requestV3 [] None) ?dw) =
     \<lparr> statusCode = 400, written = ''{"message":"body may not be empty"}'' \<rparr>\<close>
    by (simp add: r ErrorJsonMsg_def)
  from dispatchEvents_response_from_body [of counterLib "requestV3 ''[{'' (Some ''unexpected EOF'')" ?dw]
  have 2: \<open>fst (serve counterLib (requestV3 ''[{'' (Some ''unexpected EOF'')) ?dw) =
     \<lparr> statusCode = 400, written = ''{"message":"unable to read request body"}'' \<rparr>\<close>
    by (simp add: r ErrorJsonMsg_def)
  from dispatchEvents_response_from_body [of counterLib "requestV3 ''not json'' None" ?dw]
  have 3: "fst (serve counterLib (requestV3 ''not json'' None) ?dw) =
     \<lparr> statusCode = 202, written = [] \<rparr> \<and>
     errorLog (snd (worker counterLib (requestV3 ''not json'' None) ?dw)) =
     [ErrorUnmarshaling ''invalid character'']"
    by (simp add: r u e)
  from dispatchEvents_response_from_body [of panicLib "requestV3 ''[{}]'' None" ?dw]
  have 4: "fst (serve panicLib (requestV3 ''[{}]'' None) ?dw) =
     \<lparr> statusCode = 202, written = [] \<rparr> \<and>
     errorLog (snd (worker panicLib (requestV3 ''[{}]'' None) ?dw)) =
     [UnexpectedPanic ''nil pointer dereference'']"
    by (simp add: r u e p)
  from 1 2 3 4 show ?thesis by simp
qed

end
